theory Spec2Isabelle
  imports Complex_Main "HOL-Library.Char_ord" "HOL-Library.List_Lexorder"
begin

section \<open>The record table\<close>

text \<open>
  A cell of a column that pandas holds with mixed content. \<open>NA\<close> is pandas' missing value
  (NaN for numbers, NaT for dates). \<open>Val x\<close> is a cell that holds the number (or the
  timestamp) \<open>x\<close>, or text that the pandas parser reads as \<open>x\<close>. \<open>Str s\<close> is text that the
  parser rejects (\<open>to_numeric\<close> cannot read it as a number, \<open>to_datetime\<close> cannot read
  it as a date). Numbers are the reals the float64 values stand for; a timestamp is the
  count of nanoseconds since the epoch, so that the order on \<open>int\<close> is the order in time.
  Cells that hold the same number or the same date are taken to be written alike in the
  file, so that two rows are equal for \<open>drop_duplicates\<close> when their cells are.
\<close>

datatype 'a cell = NA | Val 'a | Str string

type_synonym timestamp = int

text \<open>
  One row of the data frame that \<open>read_csv\<close> returns. The text columns Gender and Category
  are \<open>None\<close> where the file has an empty field. A run that ends inside \<open>read_csv\<close>, or
  on a file without one of the seven columns, never reaches the code below and is not a
  value of this type.
\<close>

record row =
  Age :: "real cell"
  Gender :: "string option"
  Sales :: "real cell"
  Profit :: "real cell"
  Date :: "timestamp cell"
  Category :: "string option"
  Discount :: "real cell"

text \<open>
  The exceptions that end a run: \<open>ValueError\<close> from the strict \<open>to_numeric\<close>, \<open>KeyError\<close>
  from \<open>mode()[0]\<close> on an empty series, \<open>TypeError\<close> from arithmetic on text.
\<close>

datatype error = ValueError | KeyError | TypeError

section \<open>The pandas and numpy operations the script calls\<close>

text \<open>\<open>DataFrame.drop_duplicates\<close>: keeps the first of equal rows; missing equals missing.\<close>

fun drop_dups_seen :: "'a list \<Rightarrow> 'a list \<Rightarrow> 'a list" where
  "drop_dups_seen seen [] = []"
| "drop_dups_seen seen (x # xs) =
     (if x \<in> set seen then drop_dups_seen seen xs else x # drop_dups_seen (x # seen) xs)"

definition drop_duplicates :: "'a list \<Rightarrow> 'a list" where
  "drop_duplicates df = drop_dups_seen [] df"

text \<open>\<open>to_numeric(col)\<close> raises on a cell it cannot read.\<close>

fun is_Str :: "'a cell \<Rightarrow> bool" where
  "is_Str (Str s) = True"
| "is_Str _ = False"

definition to_numeric :: "real cell list \<Rightarrow> error + real cell list" where
  "to_numeric col = (if list_ex is_Str col then Inl ValueError else Inr col)"

text \<open>\<open>to_numeric(col, errors='coerce')\<close> and \<open>to_datetime(col, errors='coerce')\<close>, on one cell.\<close>

fun coerce :: "'a cell \<Rightarrow> 'a cell" where
  "coerce (Str s) = NA"
| "coerce c = c"

text \<open>\<open>Series.dropna\<close> on a coerced column: the values that are there.\<close>

fun dropna :: "'a cell list \<Rightarrow> 'a list" where
  "dropna [] = []"
| "dropna (Val x # cs) = x # dropna cs"
| "dropna (c # cs) = dropna cs"

text \<open>\<open>numpy.median\<close>: NaN on an empty array, else the middle of the sorted values.\<close>

definition median :: "real list \<Rightarrow> real cell" where
  "median xs =
     (let s = sort xs; n = length s in
      if n = 0 then NA
      else if odd n then Val (s ! (n div 2))
      else Val ((s ! (n div 2 - 1) + s ! (n div 2)) / 2))"

text \<open>\<open>Series.fillna(v)\<close> on one cell; filling with NaN changes nothing.\<close>

fun fillna :: "'a cell \<Rightarrow> 'a cell \<Rightarrow> 'a cell" where
  "fillna v NA = v"
| "fillna v c = c"

text \<open>
  \<open>Series.mode()\<close>: the values that occur most often among those present, in ascending
  order.
\<close>

definition mode :: "'a::linorder cell list \<Rightarrow> 'a list" where
  "mode col =
     (let vs = dropna col; m = fold max (map (count_list vs) vs) 0 in
      sort (remdups (filter (\<lambda>v. count_list vs v = m) vs)))"

text \<open>
  \<open>Series.quantile(q)\<close>, linear interpolation between the two nearest ranks of the
  values present; NaN when there is none.
\<close>

definition quantile :: "real cell list \<Rightarrow> real \<Rightarrow> real cell" where
  "quantile col q =
     (let s = sort (dropna col); n = length s in
      if n = 0 then NA
      else let h = real (n - 1) * q; lo = nat \<lfloor>h\<rfloor>; hi = min (lo + 1) (n - 1) in
        Val (s ! lo + (s ! hi - s ! lo) * (h - real lo)))"

text \<open>Float arithmetic and comparison with NaN: NaN spreads, a comparison with NaN is false.\<close>

fun lift2 :: "(real \<Rightarrow> real \<Rightarrow> real) \<Rightarrow> real cell \<Rightarrow> real cell \<Rightarrow> real cell" where
  "lift2 f (Val x) (Val y) = Val (f x y)"
| "lift2 f a b = NA"

fun lt :: "real cell \<Rightarrow> real cell \<Rightarrow> bool" where
  "lt (Val x) (Val y) = (x < y)"
| "lt a b = False"

section \<open>readCsvAndCleanData\<close>

definition age_ops :: "row list \<Rightarrow> error + row list" where
  "age_ops df =
     (case to_numeric (map Age df) of
        Inl e \<Rightarrow> Inl e
      | Inr col \<Rightarrow>
          let AgeMedian = median (dropna col) in
          Inr (map (\<lambda>r. r\<lparr>Age := fillna AgeMedian (Age r)\<rparr>) df))"

fun replace_empty :: "string option \<Rightarrow> string option" where
  "replace_empty (Some s) = (if s = [] then Some ''Other'' else Some s)"
| "replace_empty None = None"

fun fillna_text :: "string \<Rightarrow> string option \<Rightarrow> string option" where
  "fillna_text v None = Some v"
| "fillna_text v (Some s) = Some s"

definition gender_ops :: "row list \<Rightarrow> row list" where
  "gender_ops df =
     map (\<lambda>r. r\<lparr>Gender := replace_empty (Gender r)\<rparr>)
       (map (\<lambda>r. r\<lparr>Gender := fillna_text ''Other'' (Gender r)\<rparr>) df)"

definition sales_ops :: "row list \<Rightarrow> row list" where
  "sales_ops df =
     (let df1 = map (\<lambda>r. r\<lparr>Sales := coerce (Sales r)\<rparr>) df;
          salesMedian = median (dropna (map Sales df1))
      in map (\<lambda>r. r\<lparr>Sales := fillna salesMedian (Sales r)\<rparr>) df1)"

definition profit_ops :: "row list \<Rightarrow> row list" where
  "profit_ops df =
     (let df1 = map (\<lambda>r. r\<lparr>Profit := coerce (Profit r)\<rparr>) df;
          profitsMedian = median (dropna (map Profit df1))
      in map (\<lambda>r. r\<lparr>Profit := fillna profitsMedian (Profit r)\<rparr>) df1)"

definition date_ops :: "row list \<Rightarrow> error + row list" where
  "date_ops df =
     (let df1 = map (\<lambda>r. r\<lparr>Date := coerce (Date r)\<rparr>) df in
      case mode (map Date df1) of
        [] \<Rightarrow> Inl KeyError
      | modal_date # _ \<Rightarrow> Inr (map (\<lambda>r. r\<lparr>Date := fillna (Val modal_date) (Date r)\<rparr>) df1))"

definition category_ops :: "row list \<Rightarrow> row list" where
  "category_ops df = filter (\<lambda>r. Category r \<noteq> None) df"

definition discount_ops :: "row list \<Rightarrow> row list" where
  "discount_ops df =
     map (\<lambda>r. r\<lparr>Discount := fillna (Val 0) (Discount r)\<rparr>)
       (map (\<lambda>r. r\<lparr>Discount := coerce (Discount r)\<rparr>) df)"

definition lowerB :: "row list \<Rightarrow> real cell" where
  "lowerB df =
     (let lower_range = quantile (map Sales df) (1 / 4);
          higher_range = quantile (map Sales df) (3 / 4);
          interQuartRange = lift2 (-) higher_range lower_range
      in lift2 (-) lower_range (lift2 (*) (Val (3 / 2)) interQuartRange))"

definition upperB :: "row list \<Rightarrow> real cell" where
  "upperB df =
     (let lower_range = quantile (map Sales df) (1 / 4);
          higher_range = quantile (map Sales df) (3 / 4);
          interQuartRange = lift2 (-) higher_range lower_range
      in lift2 (+) higher_range (lift2 (*) (Val (3 / 2)) interQuartRange))"

definition clean_outliers :: "row list \<Rightarrow> row list" where
  "clean_outliers df =
     filter (\<lambda>r. \<not> (lt (Sales r) (lowerB df) \<or> lt (upperB df) (Sales r))) df"

text \<open>The column sections of the cleaner, from \<open>drop_duplicates\<close> to the Discount section.\<close>

definition clean_columns :: "row list \<Rightarrow> error + row list" where
  "clean_columns messy_df =
     (case age_ops (drop_duplicates messy_df) of
        Inl e \<Rightarrow> Inl e
      | Inr df1 \<Rightarrow>
          (case date_ops (profit_ops (sales_ops (gender_ops df1))) of
             Inl e \<Rightarrow> Inl e
           | Inr df2 \<Rightarrow> Inr (discount_ops (category_ops df2))))"

text \<open>
  The whole cleaner, on the frame that \<open>read_csv\<close> returned, in the order of the source:
  duplicates, Age, Gender, Sales, Profit, Date, Category, Discount, outliers.
\<close>

definition readCsvAndCleanData :: "row list \<Rightarrow> error + row list" where
  "readCsvAndCleanData messy_df =
     (case clean_columns messy_df of
        Inl e \<Rightarrow> Inl e
      | Inr df \<Rightarrow> Inr (clean_outliers df))"

section \<open>performDataWrangling\<close>

text \<open>
  A float64 result of a division: a finite number, an infinity or NaN. The numbers that
  the cleaner reads from the file are finite; infinities come from dividing by zero.
  Finite results are exact reals, without rounding, and the two zeros of float64 are one.
\<close>

datatype float = NaN | Fin real | PosInf | NegInf

text \<open>The frame once the two derived columns are there.\<close>

record wrow = row +
  Profit_Margin :: float
  Mature_Status :: string

text \<open>
  What the script writes to standard output and draws, in order. A report holds the table
  that is printed where this development computes it, and otherwise the data that the
  pandas or plotting call receives.
\<close>

datatype report =
    Print_discountByProducts "(string \<times> real) list"
  | Print_describe "wrow list"
  | Print_text string
  | Print_corr "(real cell \<times> real cell) list"
  | Print_pivot "(string option \<times> real cell \<times> real cell) list"
  | Print_avgGrouped "(string option \<times> real cell \<times> real cell) list"
  | Scatterplot "(real cell \<times> real cell \<times> string option) list"
  | Boxplot "(string option \<times> real cell) list"
  | Hist "real cell list" nat

text \<open>
  Float division, one cell by another: text raises, NaN spreads, a zero divisor gives an
  infinity of the sign of the dividend, or NaN for zero by zero.
\<close>

fun truediv :: "real cell \<Rightarrow> real cell \<Rightarrow> error + float" where
  "truediv (Str s) b = Inl TypeError"
| "truediv a (Str s) = Inl TypeError"
| "truediv (Val p) (Val s) =
     (if s \<noteq> 0 then Inr (Fin (p / s))
      else if 0 < p then Inr PosInf
      else if p < 0 then Inr NegInf
      else Inr NaN)"
| "truediv a b = Inr NaN"

text \<open>The lambda applied to Age: a comparison with NaN is false, with text it raises.\<close>

fun mature :: "real cell \<Rightarrow> error + string" where
  "mature (Val x) = Inr (if 25 \<le> x then ''Mature'' else ''Not Mature'')"
| "mature NA = Inr ''Not Mature''"
| "mature (Str s) = Inl TypeError"

text \<open>
  \<open>groupby("Category")["Discount"].sum().reset_index()\<close>: one line for each category that
  occurs, missing categories left out, in ascending order of the category; the sum skips
  NaN.
\<close>

definition categories :: "row list \<Rightarrow> string list" where
  "categories df = sort (remdups (List.map_filter Category df))"

definition group_sum :: "row list \<Rightarrow> string \<Rightarrow> real" where
  "group_sum df c = sum_list (dropna (map Discount (filter (\<lambda>r. Category r = Some c) df)))"

definition groupby_sum :: "row list \<Rightarrow> error + (string \<times> real) list" where
  "groupby_sum df =
     (if list_ex is_Str (map Discount df) then Inl TypeError
      else Inr (map (\<lambda>c. (c, group_sum df c)) (categories df)))"

text \<open>Running a cell operation down the frame stops at the first cell that raises.\<close>

fun collect :: "('a \<Rightarrow> error + 'b) \<Rightarrow> 'a list \<Rightarrow> error + 'b list" where
  "collect f [] = Inr []"
| "collect f (x # xs) =
     (case f x of
        Inl e \<Rightarrow> Inl e
      | Inr y \<Rightarrow> (case collect f xs of Inl e \<Rightarrow> Inl e | Inr ys \<Rightarrow> Inr (y # ys)))"

definition add_columns :: "row \<Rightarrow> float \<Rightarrow> string \<Rightarrow> wrow" where
  "add_columns r m s =
     \<lparr>Age = Age r, Gender = Gender r, Sales = Sales r, Profit = Profit r, Date = Date r,
      Category = Category r, Discount = Discount r, Profit_Margin = m, Mature_Status = s\<rparr>"

text \<open>The wrangler returns the frame it was given, with the two columns, and what it printed.\<close>

definition performDataWrangling :: "row list \<Rightarrow> error + (wrow list \<times> report list)" where
  "performDataWrangling cleaned_df =
     (case collect (\<lambda>r. truediv (Profit r) (Sales r)) cleaned_df of
        Inl e \<Rightarrow> Inl e
      | Inr margins \<Rightarrow>
          (case groupby_sum cleaned_df of
             Inl e \<Rightarrow> Inl e
           | Inr discountByProducts \<Rightarrow>
               (case collect (\<lambda>r. mature (Age r)) cleaned_df of
                  Inl e \<Rightarrow> Inl e
                | Inr statuses \<Rightarrow>
                    Inr (map (\<lambda>(r, m, s). add_columns r m s)
                           (zip cleaned_df (zip margins statuses)),
                         [Print_discountByProducts discountByProducts]))))"

section \<open>performEDA and the program\<close>

text \<open>
  The analyzer reads the frame and writes to the two channels. It is written here as the
  source is: a run of statements over the frame \<open>cleaned_df\<close>, each of which hands data to
  pandas, matplotlib or seaborn; none assigns to the frame.
\<close>

definition performEDA :: "wrow list \<Rightarrow> error + (wrow list \<times> report list)" where
  "performEDA cleaned_df =
     (if list_ex is_Str (map Sales cleaned_df) \<or> list_ex is_Str (map Discount cleaned_df)
      then Inl TypeError
      else Inr (cleaned_df,
        [Print_describe cleaned_df,
         Print_text ''Correlation matrix:'',
         Print_corr (map (\<lambda>r. (Sales r, Discount r)) cleaned_df),
         Print_text ''Average Sales by Category and Discounts:'',
         Print_pivot (map (\<lambda>r. (Category r, Discount r, Sales r)) cleaned_df),
         Print_text ''Average Discount and Sales per Category:'',
         Print_avgGrouped (map (\<lambda>r. (Category r, Discount r, Sales r)) cleaned_df),
         Scatterplot (map (\<lambda>r. (Discount r, Sales r, Category r)) cleaned_df),
         Boxplot (map (\<lambda>r. (Category r, Discount r)) cleaned_df),
         Hist (map Discount cleaned_df) 20]))"

text \<open>
  The program: the three stages, then \<open>to_csv\<close> of the frame. The result is what reached
  the output channels and the rows written to the file; an error means no file.
\<close>

definition main :: "row list \<Rightarrow> error + (report list \<times> wrow list)" where
  "main file =
     (case readCsvAndCleanData file of
        Inl e \<Rightarrow> Inl e
      | Inr cleaned0 \<Rightarrow>
          (case performDataWrangling cleaned0 of
             Inl e \<Rightarrow> Inl e
           | Inr (cleaned1, out1) \<Rightarrow>
               (case performEDA cleaned1 of
                  Inl e \<Rightarrow> Inl e
                | Inr (cleaned2, out2) \<Rightarrow> Inr (out1 @ out2, cleaned2))))"

section \<open>Notions used in the statements\<close>

fun is_Val :: "'a cell \<Rightarrow> bool" where
  "is_Val (Val x) = True"
| "is_Val _ = False"

text \<open>A column is uniform when it is free of text and either full or wholly missing.\<close>

definition uniform :: "'a cell list \<Rightarrow> bool" where
  "uniform col = (list_all is_Val col \<or> list_all (\<lambda>c. c = NA) col)"

text \<open>What the column sections establish: the shape of a frame they no longer change.\<close>

definition clean_frame :: "row list \<Rightarrow> bool" where
  "clean_frame df =
     (uniform (map Age df) \<and> uniform (map Sales df) \<and> uniform (map Profit df) \<and>
      list_all (\<lambda>r. Gender r \<noteq> None \<and> Gender r \<noteq> Some [] \<and> is_Val (Date r) \<and>
                     Category r \<noteq> None \<and> is_Val (Discount r)) df)"

text \<open>The number a cell adds to a sum that skips NaN.\<close>

fun nan_to_zero :: "real cell \<Rightarrow> real" where
  "nan_to_zero (Val x) = x"
| "nan_to_zero c = 0"

text \<open>
  The tie-break as the specification words it: of the dates that occur most often, the one
  met first in the column.
\<close>

definition first_encountered_mode :: "'a cell list \<Rightarrow> 'a option" where
  "first_encountered_mode col =
     (let vs = dropna col; m = fold max (map (count_list vs) vs) 0 in
      case filter (\<lambda>v. count_list vs v = m) vs of [] \<Rightarrow> None | v # _ \<Rightarrow> Some v)"

text \<open>A row of the sample frames: a customer of thirty with the given sale.\<close>

definition sample :: "real \<Rightarrow> row" where
  "sample s =
     \<lparr>Age = Val 30, Gender = Some ''F'', Sales = Val s, Profit = Val 20,
      Date = Val 0, Category = Some ''A'', Discount = Val 0\<rparr>"

text \<open>
  What the column sections do to one row, given the three medians and the modal date they
  have computed.
\<close>

definition clean_row :: "real cell \<Rightarrow> real cell \<Rightarrow> real cell \<Rightarrow> timestamp \<Rightarrow> row \<Rightarrow> row" where
  "clean_row mA mS mP md r =
     \<lparr>Age = fillna mA (Age r),
      Gender = replace_empty (fillna_text ''Other'' (Gender r)),
      Sales = fillna mS (coerce (Sales r)),
      Profit = fillna mP (coerce (Profit r)),
      Date = fillna (Val md) (coerce (Date r)),
      Category = Category r,
      Discount = fillna (Val 0) (coerce (Discount r))\<rparr>"

section \<open>Facts about the library operations\<close>

lemma set_drop_dups_seen: "set (drop_dups_seen seen xs) = set xs - set seen"
  by (induction xs arbitrary: seen) auto

lemma distinct_drop_dups_seen: "distinct (drop_dups_seen seen xs)"
  by (induction xs arbitrary: seen) (auto simp: set_drop_dups_seen)

lemma length_drop_dups_seen: "length (drop_dups_seen seen xs) \<le> length xs"
  by (induction xs arbitrary: seen) (auto simp: le_SucI)

lemma drop_dups_seen_id: "distinct xs \<Longrightarrow> set xs \<inter> set seen = {} \<Longrightarrow> drop_dups_seen seen xs = xs"
  by (induction xs arbitrary: seen) auto

lemma set_drop_duplicates: "set (drop_duplicates xs) = set xs"
  by (simp add: drop_duplicates_def set_drop_dups_seen)

lemma distinct_drop_duplicates: "distinct (drop_duplicates xs)"
  by (simp add: drop_duplicates_def distinct_drop_dups_seen)

lemma length_drop_duplicates: "length (drop_duplicates xs) \<le> length xs"
  by (simp add: drop_duplicates_def length_drop_dups_seen)

lemma drop_duplicates_id: "distinct xs \<Longrightarrow> drop_duplicates xs = xs"
  by (simp add: drop_duplicates_def drop_dups_seen_id)

lemma set_dropna: "set (dropna col) = {x. Val x \<in> set col}"
  by (induction col rule: dropna.induct) auto

lemma dropna_Nil: "dropna col = [] \<longleftrightarrow> \<not> list_ex is_Val col"
  by (induction col rule: dropna.induct) auto

lemma sort_Nil: "sort xs = [] \<longleftrightarrow> xs = []"
  by (metis length_sort length_0_conv)

lemma median_NA: "median xs = NA \<longleftrightarrow> xs = []"
  by (simp add: median_def Let_def sort_Nil)

lemma fold_max_Max: "fold max (cs::nat list) 0 = Max (set (0 # cs))"
  by (simp only: Max.set_eq_fold)

lemma mode_set:
  "set (mode col) = {v \<in> set (dropna col). \<forall>w \<in> set (dropna col). count_list (dropna col) w \<le> count_list (dropna col) v}"
proof -
  define vs where "vs = dropna col"
  define M where "M = Max (set (0 # map (count_list vs) vs))"
  have fin: "finite (set (0 # map (count_list vs) vs))" by simp
  have Mge: "count_list vs w \<le> M" if "w \<in> set vs" for w
    unfolding M_def using that by (intro Max_ge) auto
  have Min: "M \<in> set (0 # map (count_list vs) vs)" unfolding M_def by (rule Max_in) auto
  have pos: "0 < count_list vs w" if "w \<in> set vs" for w
    using that by (metis count_list_0_iff gr0I)
  have att: "\<exists>v \<in> set vs. count_list vs v = M" if "vs \<noteq> []"
  proof -
    have "hd vs \<in> set vs" using that by simp
    then have "0 < M" using pos Mge by fastforce
    then show ?thesis using Min by auto
  qed
  have "set (mode col) = {v \<in> set vs. count_list vs v = M}"
    by (simp add: mode_def Let_def fold_max_Max vs_def[symmetric] M_def[symmetric] del: set_simps)
  also have "\<dots> = {v \<in> set vs. \<forall>w \<in> set vs. count_list vs w \<le> count_list vs v}"
  proof (cases "vs = []")
    case True then show ?thesis by simp
  next
    case False
    then obtain u where u: "u \<in> set vs" "count_list vs u = M" using att by blast
    show ?thesis
    proof (intro Collect_cong conj_cong refl iffI ballI)
      fix v w assume "count_list vs v = M" "w \<in> set vs"
      then show "count_list vs w \<le> count_list vs v" using Mge by simp
    next
      fix v assume v: "v \<in> set vs" "\<forall>w \<in> set vs. count_list vs w \<le> count_list vs v"
      then have "M \<le> count_list vs v" using u by auto
      then show "count_list vs v = M" using Mge[OF v(1)] by simp
    qed
  qed
  finally show ?thesis by (simp add: vs_def)
qed

lemma mode_sorted: "sorted (mode col)"
  by (simp add: mode_def Let_def)

lemma mode_Nil: "mode col = [] \<longleftrightarrow> dropna col = []"
proof
  assume "dropna col = []" then show "mode col = []" by (simp add: mode_def)
next
  assume m: "mode col = []"
  show "dropna col = []"
  proof (rule ccontr)
    assume ne: "dropna col \<noteq> []"
    define vs where "vs = dropna col"
    define f where "f = count_list vs"
    have "f ` set vs \<noteq> {}" "finite (f ` set vs)" using ne vs_def by auto
    then have "Max (f ` set vs) \<in> f ` set vs" by (rule_tac Max_in)
    then obtain v where v: "v \<in> set vs" "f v = Max (f ` set vs)" by auto
    then have "\<forall>w \<in> set vs. f w \<le> f v" by simp
    then have "v \<in> set (mode col)" using v(1) by (simp add: mode_set vs_def f_def)
    then show False using m by simp
  qed
qed

lemma mode_hd:
  assumes "mode col = m # ms"
  shows "m \<in> set (dropna col)"
    and "\<forall>w \<in> set (dropna col). count_list (dropna col) w \<le> count_list (dropna col) m"
    and "\<forall>v \<in> set (dropna col). (\<forall>w \<in> set (dropna col). count_list (dropna col) w \<le> count_list (dropna col) v) \<longrightarrow> m \<le> v"
proof -
  have "m \<in> set (mode col)" using assms by simp
  then show "m \<in> set (dropna col)"
    and "\<forall>w \<in> set (dropna col). count_list (dropna col) w \<le> count_list (dropna col) m"
    by (simp_all add: mode_set)
  have "sorted (m # ms)" using mode_sorted[of col] assms by simp
  then have "\<forall>v \<in> set (mode col). m \<le> v" using assms by auto
  then show "\<forall>v \<in> set (dropna col). (\<forall>w \<in> set (dropna col). count_list (dropna col) w \<le> count_list (dropna col) v) \<longrightarrow> m \<le> v"
    by (simp add: mode_set)
qed

section \<open>Facts about the column sections\<close>

lemma list_ex_map: "list_ex P (map f xs) = list_ex (\<lambda>x. P (f x)) xs"
  by (induction xs) auto

lemma age_ops_Inl: "age_ops df = Inl e \<longleftrightarrow> list_ex (\<lambda>r. is_Str (Age r)) df \<and> e = ValueError"
  by (auto simp: age_ops_def to_numeric_def list_ex_map Let_def)

lemma age_ops_Inr:
  "age_ops df = Inr df' \<longleftrightarrow>
     \<not> list_ex (\<lambda>r. is_Str (Age r)) df \<and>
     df' = map (\<lambda>r. r\<lparr>Age := fillna (median (dropna (map Age df))) (Age r)\<rparr>) df"
  by (auto simp: age_ops_def to_numeric_def list_ex_map Let_def)

lemma dropna_coerce: "dropna (map coerce col) = dropna col"
  by (induction col rule: dropna.induct) auto

lemma dropna_coerce_map: "dropna (map (\<lambda>r. coerce (f r)) df) = dropna (map f df)"
  using dropna_coerce[of "map f df"] by (simp add: comp_def)

lemma date_ops_Inl: "date_ops df = Inl e \<longleftrightarrow> dropna (map Date df) = [] \<and> e = KeyError"
proof (cases "mode (map (\<lambda>r. coerce (Date r)) df)")
  case Nil
  then have "dropna (map Date df) = []" by (simp add: mode_Nil dropna_coerce_map)
  with Nil show ?thesis by (auto simp: date_ops_def Let_def comp_def)
next
  case (Cons m ms)
  then have "dropna (map Date df) \<noteq> []" using mode_Nil[of "map (\<lambda>r. coerce (Date r)) df"] by (simp add: dropna_coerce_map)
  with Cons show ?thesis by (auto simp: date_ops_def Let_def comp_def)
qed

lemma date_ops_Inr:
  "date_ops df = Inr df' \<longleftrightarrow>
     (\<exists>m ms. mode (map (\<lambda>r. coerce (Date r)) df) = m # ms \<and>
        df' = map (\<lambda>r. r\<lparr>Date := fillna (Val m) (coerce (Date r))\<rparr>) df)"
  by (auto simp: date_ops_def Let_def comp_def split: list.splits)

lemma gender_ops_map:
  "gender_ops df = map (\<lambda>r. r\<lparr>Gender := replace_empty (fillna_text ''Other'' (Gender r))\<rparr>) df"
  by (simp add: gender_ops_def comp_def)

lemma sales_ops_map:
  "sales_ops df = map (\<lambda>r. r\<lparr>Sales := fillna (median (dropna (map Sales df))) (coerce (Sales r))\<rparr>) df"
  by (simp add: sales_ops_def Let_def comp_def dropna_coerce_map)

lemma profit_ops_map:
  "profit_ops df = map (\<lambda>r. r\<lparr>Profit := fillna (median (dropna (map Profit df))) (coerce (Profit r))\<rparr>) df"
  by (simp add: profit_ops_def Let_def comp_def dropna_coerce_map)

lemma discount_ops_map:
  "discount_ops df = map (\<lambda>r. r\<lparr>Discount := fillna (Val 0) (coerce (Discount r))\<rparr>) df"
  by (simp add: discount_ops_def comp_def)

lemma mode_coerce_map: "mode (map (\<lambda>r. coerce (f r)) df) = mode (map f df)"
  by (simp add: mode_def dropna_coerce_map)

lemma columns_Inr:
  assumes "\<not> list_ex (\<lambda>r. is_Str (Age r)) d" and "mode (map Date d) = md # ms"
  shows "(case age_ops d of
        Inl e \<Rightarrow> Inl e
      | Inr df1 \<Rightarrow>
          (case date_ops (profit_ops (sales_ops (gender_ops df1))) of
             Inl e \<Rightarrow> Inl e
           | Inr df2 \<Rightarrow> Inr (discount_ops (category_ops df2)))) =
     Inr (map (clean_row (median (dropna (map Age d))) (median (dropna (map Sales d)))
                (median (dropna (map Profit d))) md) (category_ops d))"
proof -
  define df1 where "df1 = map (\<lambda>r. r\<lparr>Age := fillna (median (dropna (map Age d))) (Age r)\<rparr>) d"
  have a: "age_ops d = Inr df1" using assms(1) by (simp add: age_ops_Inr df1_def)
  define df3 where "df3 = profit_ops (sales_ops (gender_ops df1))"
  have 3: "df3 = map (\<lambda>r. r\<lparr>Age := fillna (median (dropna (map Age d))) (Age r),
       Gender := replace_empty (fillna_text ''Other'' (Gender r)),
       Sales := fillna (median (dropna (map Sales d))) (coerce (Sales r)),
       Profit := fillna (median (dropna (map Profit d))) (coerce (Profit r))\<rparr>) d"
    unfolding df3_def
    apply (subst profit_ops_map)
    apply (subst sales_ops_map)
    apply (subst sales_ops_map)
    apply (simp add: gender_ops_map df1_def comp_def)
    done
  have "map Date df3 = map Date d" by (simp add: 3 comp_def)
  then have "mode (map (\<lambda>r. coerce (Date r)) df3) = md # ms"
    using assms(2) by (simp add: mode_coerce_map)
  then have dd: "date_ops df3 = Inr (map (\<lambda>r. r\<lparr>Date := fillna (Val md) (coerce (Date r))\<rparr>) df3)"
    by (simp add: date_ops_Inr)
  show ?thesis
    apply (simp only: a sum.case dd df3_def[symmetric])
    apply (simp add: 3 discount_ops_map category_ops_def filter_map comp_def clean_row_def)
    done
qed

lemma map_Date_stages: "map Date (profit_ops (sales_ops (gender_ops df))) = map Date df"
proof -
  have "map Date (profit_ops x) = map Date x" for x
    by (subst profit_ops_map) (simp add: comp_def)
  moreover have "map Date (sales_ops x) = map Date x" for x
    by (subst sales_ops_map) (simp add: comp_def)
  moreover have "map Date (gender_ops x) = map Date x" for x
    by (simp add: gender_ops_map comp_def)
  ultimately show ?thesis by simp
qed

lemma clean_columns_eq:
  "clean_columns t =
     (if list_ex (\<lambda>r. is_Str (Age r)) t then Inl ValueError
      else case mode (map Date (drop_duplicates t)) of
        [] \<Rightarrow> Inl KeyError
      | md # ms \<Rightarrow>
          Inr (map (clean_row (median (dropna (map Age (drop_duplicates t))))
                    (median (dropna (map Sales (drop_duplicates t))))
                    (median (dropna (map Profit (drop_duplicates t)))) md)
                (category_ops (drop_duplicates t))))"
proof -
  define d where "d = drop_duplicates t"
  have ex: "list_ex (\<lambda>r. is_Str (Age r)) t = list_ex (\<lambda>r. is_Str (Age r)) d"
    by (simp add: list_ex_iff d_def set_drop_duplicates)
  show ?thesis
  proof (cases "list_ex (\<lambda>r. is_Str (Age r)) d")
    case True
    then have "age_ops d = Inl ValueError" by (simp add: age_ops_Inl)
    then show ?thesis using True ex by (simp add: clean_columns_def d_def)
  next
    case False
    note nostr = this
    show ?thesis
    proof (cases "mode (map Date d)")
      case Nil
      obtain df1 where a: "age_ops d = Inr df1"
        and df1: "df1 = map (\<lambda>r. r\<lparr>Age := fillna (median (dropna (map Age d))) (Age r)\<rparr>) d"
        using nostr by (simp add: age_ops_Inr)
      have "map Date (profit_ops (sales_ops (gender_ops df1))) = map Date d"
        by (simp add: map_Date_stages df1 comp_def)
      then have "date_ops (profit_ops (sales_ops (gender_ops df1))) = Inl KeyError"
        using Nil by (simp add: date_ops_Inl mode_Nil)
      then show ?thesis using Nil a nostr ex by (simp add: clean_columns_def d_def[symmetric])
    next
      case (Cons md ms)
      show ?thesis
        unfolding clean_columns_def d_def[symmetric] columns_Inr[OF nostr Cons]
        using nostr ex Cons by simp
    qed
  qed
qed

lemma clean_columns_Inr:
  "clean_columns t = Inr out \<longleftrightarrow>
     \<not> list_ex (\<lambda>r. is_Str (Age r)) t \<and>
     (\<exists>md ms. mode (map Date (drop_duplicates t)) = md # ms \<and>
        out = map (clean_row (median (dropna (map Age (drop_duplicates t))))
                    (median (dropna (map Sales (drop_duplicates t))))
                    (median (dropna (map Profit (drop_duplicates t)))) md)
                (category_ops (drop_duplicates t)))"
  by (auto simp: clean_columns_eq split: list.splits)

lemma list_ex_is_Val_dropna: "list_ex (\<lambda>r. is_Val (f r)) t \<longleftrightarrow> dropna (map f t) \<noteq> []"
  by (simp add: dropna_Nil list_ex_map)

lemma dropna_drop_duplicates_Nil: "dropna (map f (drop_duplicates t)) = [] \<longleftrightarrow> dropna (map f t) = []"
  by (simp add: dropna_Nil list_ex_iff set_drop_duplicates)

lemma clean_columns_Inl:
  "clean_columns t = Inl e \<longleftrightarrow>
     (list_ex (\<lambda>r. is_Str (Age r)) t \<and> e = ValueError) \<or>
     (\<not> list_ex (\<lambda>r. is_Str (Age r)) t \<and> \<not> list_ex (\<lambda>r. is_Val (Date r)) t \<and> e = KeyError)"
proof (cases "mode (map Date (drop_duplicates t))")
  case Nil
  then have "dropna (map Date t) = []" by (simp add: mode_Nil dropna_drop_duplicates_Nil)
  with Nil show ?thesis by (auto simp: clean_columns_eq list_ex_is_Val_dropna)
next
  case (Cons md ms)
  then have "dropna (map Date t) \<noteq> []"
    using mode_Nil[of "map Date (drop_duplicates t)"] by (simp add: dropna_drop_duplicates_Nil)
  with Cons show ?thesis by (auto simp: clean_columns_eq list_ex_is_Val_dropna)
qed

lemma readCsvAndCleanData_Inl: "readCsvAndCleanData t = Inl e \<longleftrightarrow> clean_columns t = Inl e"
  by (simp add: readCsvAndCleanData_def split: sum.splits)

lemma readCsvAndCleanData_Inr:
  "readCsvAndCleanData t = Inr out \<longleftrightarrow> (\<exists>df. clean_columns t = Inr df \<and> out = clean_outliers df)"
  by (auto simp: readCsvAndCleanData_def split: sum.splits)

lemma coerce_idem: "coerce (coerce c) = coerce c"
  by (cases c) simp_all

lemma fillna_coerce_case: "fillna v (coerce c) = (case c of Val x \<Rightarrow> Val x | _ \<Rightarrow> v)"
  by (cases c) simp_all

lemma fillna_case: "fillna v c = (case c of NA \<Rightarrow> v | Val x \<Rightarrow> Val x | Str s \<Rightarrow> Str s)"
  by (cases c) simp_all

lemma gender_case:
  "replace_empty (fillna_text ''Other'' g) =
     (case g of None \<Rightarrow> Some ''Other'' | Some s \<Rightarrow> if s = [] then Some ''Other'' else Some s)"
  by (cases g) simp_all

lemma clean_row_explicit:
  "clean_row mA mS mP md r =
     r\<lparr>Age := (case Age r of NA \<Rightarrow> mA | Val x \<Rightarrow> Val x | Str s \<Rightarrow> Str s),
       Gender := (case Gender r of None \<Rightarrow> Some ''Other''
                  | Some s \<Rightarrow> if s = [] then Some ''Other'' else Some s),
       Sales := (case Sales r of Val x \<Rightarrow> Val x | _ \<Rightarrow> mS),
       Profit := (case Profit r of Val x \<Rightarrow> Val x | _ \<Rightarrow> mP),
       Date := (case Date r of Val d \<Rightarrow> Val d | _ \<Rightarrow> Val md),
       Discount := (case Discount r of Val x \<Rightarrow> Val x | _ \<Rightarrow> Val 0)\<rparr>"
  by (cases r) (simp add: clean_row_def gender_case split: cell.splits)

lemma set_dropna_drop_duplicates: "set (dropna (map f (drop_duplicates t))) = set (dropna (map f t))"
  by (simp add: set_dropna set_drop_duplicates)

section \<open>The claims\<close>

text \<open>
  C4. A cell of Age that is not a number ends the run with an error, and nothing is
  written. Text in Sales, Profit or Discount never does. With Age free of text and one
  valid date the cleaner returns the frame spelled out below: the rows that are first of
  their kind and have a Category, then filtered for outliers, in which a cell of Sales or
  Profit that is text has become the median of the numbers of its column, as a missing
  cell has, and a cell of Discount that is text has become 0, as a missing cell has. The
  Sales, Profit and Discount sections do the same on any frame, text or not.
\<close>

theorem age_strict_other_columns_coerced:
  "(list_ex (\<lambda>r. is_Str (Age r)) t \<longrightarrow>
      readCsvAndCleanData t = Inl ValueError \<and> main t = Inl ValueError) \<and>
   (\<not> list_ex (\<lambda>r. is_Str (Age r)) t \<and> list_ex (\<lambda>r. is_Val (Date r)) t \<longrightarrow>
      (\<exists>md \<in> set (dropna (map Date t)).
         readCsvAndCleanData t =
         Inr (clean_outliers
           (map (\<lambda>r. r\<lparr>Age := (case Age r of NA \<Rightarrow> median (dropna (map Age (drop_duplicates t)))
                                    | Val x \<Rightarrow> Val x | Str s \<Rightarrow> Str s),
                       Gender := (case Gender r of None \<Rightarrow> Some ''Other''
                                  | Some s \<Rightarrow> if s = [] then Some ''Other'' else Some s),
                       Sales := (case Sales r of Val x \<Rightarrow> Val x
                                 | _ \<Rightarrow> median (dropna (map Sales (drop_duplicates t)))),
                       Profit := (case Profit r of Val x \<Rightarrow> Val x
                                  | _ \<Rightarrow> median (dropna (map Profit (drop_duplicates t)))),
                       Date := (case Date r of Val d \<Rightarrow> Val d | _ \<Rightarrow> Val md),
                       Discount := (case Discount r of Val x \<Rightarrow> Val x | _ \<Rightarrow> Val 0)\<rparr>)
              (filter (\<lambda>r. Category r \<noteq> None) (drop_duplicates t)))))) \<and>
   coerce (Str s) = NA \<and>
   sales_ops t =
     map (\<lambda>r. r\<lparr>Sales := (case Sales r of Val x \<Rightarrow> Val x | _ \<Rightarrow> median (dropna (map Sales t)))\<rparr>) t \<and>
   profit_ops t =
     map (\<lambda>r. r\<lparr>Profit := (case Profit r of Val x \<Rightarrow> Val x | _ \<Rightarrow> median (dropna (map Profit t)))\<rparr>) t \<and>
   discount_ops t =
     map (\<lambda>r. r\<lparr>Discount := (case Discount r of Val x \<Rightarrow> Val x | _ \<Rightarrow> Val 0)\<rparr>) t \<and>
   sales_ops t = sales_ops (map (\<lambda>r. r\<lparr>Sales := coerce (Sales r)\<rparr>) t) \<and>
   profit_ops t = profit_ops (map (\<lambda>r. r\<lparr>Profit := coerce (Profit r)\<rparr>) t) \<and>
   discount_ops t = discount_ops (map (\<lambda>r. r\<lparr>Discount := coerce (Discount r)\<rparr>) t)"
proof (intro conjI impI)
  assume a: "list_ex (\<lambda>r. is_Str (Age r)) t"
  then show "readCsvAndCleanData t = Inl ValueError"
    by (simp add: readCsvAndCleanData_Inl clean_columns_Inl)
  then show "main t = Inl ValueError" by (simp add: main_def)
next
  assume h: "\<not> list_ex (\<lambda>r. is_Str (Age r)) t \<and> list_ex (\<lambda>r. is_Val (Date r)) t"
  then have "\<forall>e. clean_columns t \<noteq> Inl e" by (simp add: clean_columns_Inl)
  then obtain df where df: "clean_columns t = Inr df" by (cases "clean_columns t") auto
  then obtain md ms where mo: "mode (map Date (drop_duplicates t)) = md # ms"
    and dfeq: "df = map (clean_row (median (dropna (map Age (drop_duplicates t))))
                    (median (dropna (map Sales (drop_duplicates t))))
                    (median (dropna (map Profit (drop_duplicates t)))) md)
                (category_ops (drop_duplicates t))"
    by (auto simp: clean_columns_Inr)
  have "md \<in> set (dropna (map Date t))"
    using mode_hd(1)[OF mo] by (simp add: set_dropna_drop_duplicates)
  moreover have "readCsvAndCleanData t = Inr (clean_outliers df)"
    using df by (simp add: readCsvAndCleanData_def)
  ultimately show "\<exists>md \<in> set (dropna (map Date t)).
         readCsvAndCleanData t =
         Inr (clean_outliers
           (map (\<lambda>r. r\<lparr>Age := (case Age r of NA \<Rightarrow> median (dropna (map Age (drop_duplicates t)))
                                    | Val x \<Rightarrow> Val x | Str s \<Rightarrow> Str s),
                       Gender := (case Gender r of None \<Rightarrow> Some ''Other''
                                  | Some s \<Rightarrow> if s = [] then Some ''Other'' else Some s),
                       Sales := (case Sales r of Val x \<Rightarrow> Val x
                                 | _ \<Rightarrow> median (dropna (map Sales (drop_duplicates t)))),
                       Profit := (case Profit r of Val x \<Rightarrow> Val x
                                  | _ \<Rightarrow> median (dropna (map Profit (drop_duplicates t)))),
                       Date := (case Date r of Val d \<Rightarrow> Val d | _ \<Rightarrow> Val md),
                       Discount := (case Discount r of Val x \<Rightarrow> Val x | _ \<Rightarrow> Val 0)\<rparr>)
              (filter (\<lambda>r. Category r \<noteq> None) (drop_duplicates t))))"
    unfolding dfeq category_ops_def clean_row_explicit by (intro bexI[of _ md]) simp_all
next
  show "coerce (Str s) = NA" by simp
  show "sales_ops t =
     map (\<lambda>r. r\<lparr>Sales := (case Sales r of Val x \<Rightarrow> Val x | _ \<Rightarrow> median (dropna (map Sales t)))\<rparr>) t"
    by (subst sales_ops_map) (simp add: fillna_coerce_case)
  show "profit_ops t =
     map (\<lambda>r. r\<lparr>Profit := (case Profit r of Val x \<Rightarrow> Val x | _ \<Rightarrow> median (dropna (map Profit t)))\<rparr>) t"
    by (subst profit_ops_map) (simp add: fillna_coerce_case)
  show "discount_ops t =
     map (\<lambda>r. r\<lparr>Discount := (case Discount r of Val x \<Rightarrow> Val x | _ \<Rightarrow> Val 0)\<rparr>) t"
    by (simp add: discount_ops_map fillna_coerce_case)
  show "sales_ops t = sales_ops (map (\<lambda>r. r\<lparr>Sales := coerce (Sales r)\<rparr>) t)"
    by (simp add: sales_ops_def comp_def coerce_idem)
  show "profit_ops t = profit_ops (map (\<lambda>r. r\<lparr>Profit := coerce (Profit r)\<rparr>) t)"
    by (simp add: profit_ops_def comp_def coerce_idem)
  show "discount_ops t = discount_ops (map (\<lambda>r. r\<lparr>Discount := coerce (Discount r)\<rparr>) t)"
    by (simp add: discount_ops_def comp_def coerce_idem)
qed

theorem age_strict_other_columns_coerced_witness:
  "readCsvAndCleanData [(sample 100)\<lparr>Age := Str ''abc''\<rparr>] = Inl ValueError \<and>
   main [(sample 100)\<lparr>Age := Str ''abc''\<rparr>] = Inl ValueError \<and>
   readCsvAndCleanData
     [sample 100, (sample 50)\<lparr>Profit := Val 10, Discount := Val 5\<rparr>,
      (sample 60)\<lparr>Sales := Str ''abc'', Profit := Str ''n/a'', Discount := Str ''none''\<rparr>] =
   Inr [sample 100, (sample 50)\<lparr>Profit := Val 10, Discount := Val 5\<rparr>,
      (sample 75)\<lparr>Profit := Val 15, Discount := Val 0\<rparr>] \<and>
   sales_ops
     [sample 100, (sample 50)\<lparr>Profit := Val 10, Discount := Val 5\<rparr>,
      (sample 60)\<lparr>Sales := Str ''abc'', Profit := Str ''n/a'', Discount := Str ''none''\<rparr>] =
     [sample 100, (sample 50)\<lparr>Profit := Val 10, Discount := Val 5\<rparr>,
      (sample 75)\<lparr>Profit := Str ''n/a'', Discount := Str ''none''\<rparr>] \<and>
   discount_ops
     [sample 100, (sample 50)\<lparr>Profit := Val 10, Discount := Val 5\<rparr>,
      (sample 60)\<lparr>Sales := Str ''abc'', Profit := Str ''n/a'', Discount := Str ''none''\<rparr>] =
     [sample 100, (sample 50)\<lparr>Profit := Val 10, Discount := Val 5\<rparr>,
      (sample 60)\<lparr>Sales := Str ''abc'', Profit := Str ''n/a'', Discount := Val 0\<rparr>]"
proof -
  note thm1 = age_strict_other_columns_coerced [of "[(sample 100)\<lparr>Age := Str ''abc''\<rparr>]"]
  note thm2 = age_strict_other_columns_coerced
    [of "[sample 100, (sample 50)\<lparr>Profit := Val 10, Discount := Val 5\<rparr>,
      (sample 60)\<lparr>Sales := Str ''abc'', Profit := Str ''n/a'', Discount := Str ''none''\<rparr>]"]
  have h1: "list_ex (\<lambda>r. is_Str (Age r)) [(sample 100)\<lparr>Age := Str ''abc''\<rparr>]" by code_simp
  have a: "readCsvAndCleanData [(sample 100)\<lparr>Age := Str ''abc''\<rparr>] = Inl ValueError \<and> main [(sample 100)\<lparr>Age := Str ''abc''\<rparr>] = Inl ValueError"
    using thm1 [THEN conjunct1] h1 by (rule mp)
  have h2: "\<not> list_ex (\<lambda>r. is_Str (Age r))
     [sample 100, (sample 50)\<lparr>Profit := Val 10, Discount := Val 5\<rparr>,
      (sample 60)\<lparr>Sales := Str ''abc'', Profit := Str ''n/a'', Discount := Str ''none''\<rparr>] \<and>
    list_ex (\<lambda>r. is_Val (Date r))
     [sample 100, (sample 50)\<lparr>Profit := Val 10, Discount := Val 5\<rparr>,
      (sample 60)\<lparr>Sales := Str ''abc'', Profit := Str ''n/a'', Discount := Str ''none''\<rparr>]"
    by code_simp
  obtain md where md: "md \<in> set (dropna (map Date
     [sample 100, (sample 50)\<lparr>Profit := Val 10, Discount := Val 5\<rparr>,
      (sample 60)\<lparr>Sales := Str ''abc'', Profit := Str ''n/a'', Discount := Str ''none''\<rparr>]))"
    and eq: "readCsvAndCleanData
     [sample 100, (sample 50)\<lparr>Profit := Val 10, Discount := Val 5\<rparr>,
      (sample 60)\<lparr>Sales := Str ''abc'', Profit := Str ''n/a'', Discount := Str ''none''\<rparr>] =
      Inr (clean_outliers
           (map (\<lambda>r. r\<lparr>Age := (case Age r of NA \<Rightarrow> median (dropna (map Age (drop_duplicates
     [sample 100, (sample 50)\<lparr>Profit := Val 10, Discount := Val 5\<rparr>,
      (sample 60)\<lparr>Sales := Str ''abc'', Profit := Str ''n/a'', Discount := Str ''none''\<rparr>])))
                                    | Val x \<Rightarrow> Val x | Str s \<Rightarrow> Str s),
                       Gender := (case Gender r of None \<Rightarrow> Some ''Other''
                                  | Some s \<Rightarrow> if s = [] then Some ''Other'' else Some s),
                       Sales := (case Sales r of Val x \<Rightarrow> Val x
                                 | _ \<Rightarrow> median (dropna (map Sales (drop_duplicates
     [sample 100, (sample 50)\<lparr>Profit := Val 10, Discount := Val 5\<rparr>,
      (sample 60)\<lparr>Sales := Str ''abc'', Profit := Str ''n/a'', Discount := Str ''none''\<rparr>])))),
                       Profit := (case Profit r of Val x \<Rightarrow> Val x
                                  | _ \<Rightarrow> median (dropna (map Profit (drop_duplicates
     [sample 100, (sample 50)\<lparr>Profit := Val 10, Discount := Val 5\<rparr>,
      (sample 60)\<lparr>Sales := Str ''abc'', Profit := Str ''n/a'', Discount := Str ''none''\<rparr>])))),
                       Date := (case Date r of Val d \<Rightarrow> Val d | _ \<Rightarrow> Val md),
                       Discount := (case Discount r of Val x \<Rightarrow> Val x | _ \<Rightarrow> Val 0)\<rparr>)
              (filter (\<lambda>r. Category r \<noteq> None) (drop_duplicates
     [sample 100, (sample 50)\<lparr>Profit := Val 10, Discount := Val 5\<rparr>,
      (sample 60)\<lparr>Sales := Str ''abc'', Profit := Str ''n/a'', Discount := Str ''none''\<rparr>]))))"
    using thm2 [THEN conjunct2, THEN conjunct1, THEN mp, OF h2] by blast
  have "set (dropna (map Date
     [sample 100, (sample 50)\<lparr>Profit := Val 10, Discount := Val 5\<rparr>,
      (sample 60)\<lparr>Sales := Str ''abc'', Profit := Str ''n/a'', Discount := Str ''none''\<rparr>])) = {0}"
    by code_simp
  then have md0: "md = 0" using md by simp
  have ev: "(clean_outliers
           (map (\<lambda>r. r\<lparr>Age := (case Age r of NA \<Rightarrow> median (dropna (map Age (drop_duplicates
     [sample 100, (sample 50)\<lparr>Profit := Val 10, Discount := Val 5\<rparr>,
      (sample 60)\<lparr>Sales := Str ''abc'', Profit := Str ''n/a'', Discount := Str ''none''\<rparr>])))
                                    | Val x \<Rightarrow> Val x | Str s \<Rightarrow> Str s),
                       Gender := (case Gender r of None \<Rightarrow> Some ''Other''
                                  | Some s \<Rightarrow> if s = [] then Some ''Other'' else Some s),
                       Sales := (case Sales r of Val x \<Rightarrow> Val x
                                 | _ \<Rightarrow> median (dropna (map Sales (drop_duplicates
     [sample 100, (sample 50)\<lparr>Profit := Val 10, Discount := Val 5\<rparr>,
      (sample 60)\<lparr>Sales := Str ''abc'', Profit := Str ''n/a'', Discount := Str ''none''\<rparr>])))),
                       Profit := (case Profit r of Val x \<Rightarrow> Val x
                                  | _ \<Rightarrow> median (dropna (map Profit (drop_duplicates
     [sample 100, (sample 50)\<lparr>Profit := Val 10, Discount := Val 5\<rparr>,
      (sample 60)\<lparr>Sales := Str ''abc'', Profit := Str ''n/a'', Discount := Str ''none''\<rparr>])))),
                       Date := (case Date r of Val d \<Rightarrow> Val d | _ \<Rightarrow> Val 0),
                       Discount := (case Discount r of Val x \<Rightarrow> Val x | _ \<Rightarrow> Val 0)\<rparr>)
              (filter (\<lambda>r. Category r \<noteq> None) (drop_duplicates
     [sample 100, (sample 50)\<lparr>Profit := Val 10, Discount := Val 5\<rparr>,
      (sample 60)\<lparr>Sales := Str ''abc'', Profit := Str ''n/a'', Discount := Str ''none''\<rparr>])))) =
     [sample 100, (sample 50)\<lparr>Profit := Val 10, Discount := Val 5\<rparr>,
      (sample 75)\<lparr>Profit := Val 15, Discount := Val 0\<rparr>]"
    by code_simp
  have b: "readCsvAndCleanData
     [sample 100, (sample 50)\<lparr>Profit := Val 10, Discount := Val 5\<rparr>,
      (sample 60)\<lparr>Sales := Str ''abc'', Profit := Str ''n/a'', Discount := Str ''none''\<rparr>] =
   Inr [sample 100, (sample 50)\<lparr>Profit := Val 10, Discount := Val 5\<rparr>,
      (sample 75)\<lparr>Profit := Val 15, Discount := Val 0\<rparr>]"
    using eq unfolding md0 ev .
  have "map (\<lambda>r. r\<lparr>Sales := (case Sales r of Val x \<Rightarrow> Val x | _ \<Rightarrow> median (dropna (map Sales
     [sample 100, (sample 50)\<lparr>Profit := Val 10, Discount := Val 5\<rparr>,
      (sample 60)\<lparr>Sales := Str ''abc'', Profit := Str ''n/a'', Discount := Str ''none''\<rparr>])))\<rparr>)
     [sample 100, (sample 50)\<lparr>Profit := Val 10, Discount := Val 5\<rparr>,
      (sample 60)\<lparr>Sales := Str ''abc'', Profit := Str ''n/a'', Discount := Str ''none''\<rparr>] =
     [sample 100, (sample 50)\<lparr>Profit := Val 10, Discount := Val 5\<rparr>,
      (sample 75)\<lparr>Profit := Str ''n/a'', Discount := Str ''none''\<rparr>]"
    by code_simp
  then have c: "sales_ops
     [sample 100, (sample 50)\<lparr>Profit := Val 10, Discount := Val 5\<rparr>,
      (sample 60)\<lparr>Sales := Str ''abc'', Profit := Str ''n/a'', Discount := Str ''none''\<rparr>] =
     [sample 100, (sample 50)\<lparr>Profit := Val 10, Discount := Val 5\<rparr>,
      (sample 75)\<lparr>Profit := Str ''n/a'', Discount := Str ''none''\<rparr>]"
    using thm2 [THEN conjunct2, THEN conjunct2, THEN conjunct2, THEN conjunct1] by simp
  have "map (\<lambda>r. r\<lparr>Discount := (case Discount r of Val x \<Rightarrow> Val x | _ \<Rightarrow> Val 0)\<rparr>)
     [sample 100, (sample 50)\<lparr>Profit := Val 10, Discount := Val 5\<rparr>,
      (sample 60)\<lparr>Sales := Str ''abc'', Profit := Str ''n/a'', Discount := Str ''none''\<rparr>] =
     [sample 100, (sample 50)\<lparr>Profit := Val 10, Discount := Val 5\<rparr>,
      (sample 60)\<lparr>Sales := Str ''abc'', Profit := Str ''n/a'', Discount := Val 0\<rparr>]"
    by code_simp
  then have d: "discount_ops
     [sample 100, (sample 50)\<lparr>Profit := Val 10, Discount := Val 5\<rparr>,
      (sample 60)\<lparr>Sales := Str ''abc'', Profit := Str ''n/a'', Discount := Str ''none''\<rparr>] =
     [sample 100, (sample 50)\<lparr>Profit := Val 10, Discount := Val 5\<rparr>,
      (sample 60)\<lparr>Sales := Str ''abc'', Profit := Str ''n/a'', Discount := Val 0\<rparr>]"
    using thm2 [THEN conjunct2, THEN conjunct2, THEN conjunct2, THEN conjunct2, THEN conjunct2,
      THEN conjunct1] by simp
  show ?thesis using a b c d by blast
qed

lemma is_Val_fillna_coerce: "is_Val (fillna (Val m) (coerce c))"
  by (cases c) simp_all

lemma is_Val_fillna: "\<not> is_Str c \<Longrightarrow> is_Val (fillna (Val m) c)"
  by (cases c) simp_all

lemma median_Val: "xs \<noteq> [] \<Longrightarrow> \<exists>m. median xs = Val m"
proof (cases "median xs")
  case (Str s)
  then show ?thesis by (simp add: median_def Let_def split: if_splits)
qed (simp_all add: median_NA)

lemma list_all_clean_outliers: "list_all P df \<Longrightarrow> list_all P (clean_outliers df)"
  by (simp add: clean_outliers_def list_all_iff)

lemma clean_row_sel [simp]:
  "Age (clean_row mA mS mP md r) = fillna mA (Age r)"
  "Gender (clean_row mA mS mP md r) = replace_empty (fillna_text ''Other'' (Gender r))"
  "Sales (clean_row mA mS mP md r) = fillna mS (coerce (Sales r))"
  "Profit (clean_row mA mS mP md r) = fillna mP (coerce (Profit r))"
  "Date (clean_row mA mS mP md r) = fillna (Val md) (coerce (Date r))"
  "Category (clean_row mA mS mP md r) = Category r"
  "Discount (clean_row mA mS mP md r) = fillna (Val 0) (coerce (Discount r))"
  by (simp_all add: clean_row_def)

text \<open>
  C1 (amended). When the cleaner returns a frame, its Date and Discount columns have no
  missing value and every row has a Category; Age, Sales and Profit have no missing value
  each provided the input column holds at least one number.
\<close>

theorem cleaned_columns_free_of_missing:
  assumes "readCsvAndCleanData t = Inr out"
  shows "(list_ex (\<lambda>r. is_Val (Age r)) t \<longrightarrow> list_all (\<lambda>r. is_Val (Age r)) out) \<and>
         (list_ex (\<lambda>r. is_Val (Sales r)) t \<longrightarrow> list_all (\<lambda>r. is_Val (Sales r)) out) \<and>
         (list_ex (\<lambda>r. is_Val (Profit r)) t \<longrightarrow> list_all (\<lambda>r. is_Val (Profit r)) out) \<and>
         list_all (\<lambda>r. is_Val (Date r) \<and> is_Val (Discount r) \<and> Category r \<noteq> None) out"
proof -
  define d where "d = drop_duplicates t"
  obtain md and ms :: "timestamp list" where nostr: "\<not> list_ex (\<lambda>r. is_Str (Age r)) t"
    and out: "out = clean_outliers (map (clean_row (median (dropna (map Age d)))
                    (median (dropna (map Sales d))) (median (dropna (map Profit d))) md)
                (category_ops d))"
    using assms unfolding readCsvAndCleanData_Inr clean_columns_Inr d_def by blast
  have sub: "set (category_ops d) \<subseteq> set t"
    by (auto simp: category_ops_def d_def set_drop_duplicates)
  have med: "\<exists>m. median (dropna (map f d)) = Val m" if "list_ex (\<lambda>r. is_Val (f r)) t"
    for f :: "row \<Rightarrow> real cell"
    using that by (intro median_Val) (simp add: d_def dropna_drop_duplicates_Nil list_ex_is_Val_dropna)
  have age: "list_all (\<lambda>r. is_Val (Age r)) out" if h: "list_ex (\<lambda>r. is_Val (Age r)) t"
  proof -
    obtain m where "median (dropna (map Age d)) = Val m" using med[OF h] by blast
    moreover have "\<not> is_Str (Age r)" if "r \<in> set (category_ops d)" for r
      using nostr sub that by (auto simp: list_ex_iff)
    ultimately show ?thesis unfolding out
      by (intro list_all_clean_outliers) (simp add: list_all_iff is_Val_fillna)
  qed
  have sales: "list_all (\<lambda>r. is_Val (Sales r)) out" if h: "list_ex (\<lambda>r. is_Val (Sales r)) t"
  proof -
    obtain m where "median (dropna (map Sales d)) = Val m" using med[OF h] by blast
    then show ?thesis unfolding out
      by (intro list_all_clean_outliers) (simp add: list_all_iff is_Val_fillna_coerce)
  qed
  have profit: "list_all (\<lambda>r. is_Val (Profit r)) out" if h: "list_ex (\<lambda>r. is_Val (Profit r)) t"
  proof -
    obtain m where "median (dropna (map Profit d)) = Val m" using med[OF h] by blast
    then show ?thesis unfolding out
      by (intro list_all_clean_outliers) (simp add: list_all_iff is_Val_fillna_coerce)
  qed
  have rest: "list_all (\<lambda>r. is_Val (Date r) \<and> is_Val (Discount r) \<and> Category r \<noteq> None) out"
    unfolding out
    by (intro list_all_clean_outliers) (simp add: list_all_iff is_Val_fillna_coerce category_ops_def)
  show ?thesis using age sales profit rest by blast
qed

theorem cleaned_columns_free_of_missing_witness:
  "readCsvAndCleanData
     [sample 100, (sample 90)\<lparr>Age := NA, Sales := Str ''abc'', Profit := NA, Date := Str ''soon'',
        Discount := Str ''N/A''\<rparr>] =
   Inr [sample 100, (sample 100)\<lparr>Age := Val 30\<rparr>] \<and>
   list_all (\<lambda>r. is_Val (Age r) \<and> is_Val (Sales r) \<and> is_Val (Profit r) \<and> is_Val (Date r) \<and>
      is_Val (Discount r) \<and> Category r \<noteq> None) [sample 100, (sample 100)\<lparr>Age := Val 30\<rparr>]"
proof -
  have run: "readCsvAndCleanData
     [sample 100, (sample 90)\<lparr>Age := NA, Sales := Str ''abc'', Profit := NA, Date := Str ''soon'',
        Discount := Str ''N/A''\<rparr>] =
   Inr [sample 100, (sample 100)\<lparr>Age := Val 30\<rparr>]"
    by code_simp
  show ?thesis using run cleaned_columns_free_of_missing [OF run] by (simp add: sample_def)
qed

text \<open>
  A frame whose only Sales cell is text: the median of no value is NaN, the fill changes
  nothing, and the row comes back with its Sales missing.
\<close>

theorem wholly_missing_sales_counterexample:
  "readCsvAndCleanData [(sample 100)\<lparr>Sales := Str ''abc''\<rparr>] = Inr [(sample 100)\<lparr>Sales := NA\<rparr>] \<and>
   Sales ((sample 100)\<lparr>Sales := NA\<rparr>) = NA"
  by code_simp

lemma quantile_Val: "dropna col \<noteq> [] \<Longrightarrow> \<exists>x. quantile col q = Val x"
  by (simp add: quantile_def Let_def sort_Nil)

lemma bounds_Val:
  assumes "quantile (map Sales df) (1 / 4) = Val q1" and "quantile (map Sales df) (3 / 4) = Val q3"
  shows "lowerB df = Val (q1 - 3 / 2 * (q3 - q1))" and "upperB df = Val (q3 + 3 / 2 * (q3 - q1))"
  using assms by (simp_all add: lowerB_def upperB_def Let_def)

text \<open>
  C2 (amended). Every Sales value of the returned frame lies within
  \<open>[Q1 - 1.5 * IQR, Q3 + 1.5 * IQR]\<close>, where Q1 and Q3 are the quartiles, by linear
  interpolation, of the Sales column of the frame before the outlier filter: the
  bounds are computed once and the filter is applied once.
\<close>

theorem sales_within_fence_of_unfiltered_frame:
  assumes "readCsvAndCleanData t = Inr out"
  shows "\<exists>pre. clean_columns t = Inr pre \<and> out = clean_outliers pre \<and>
           (\<forall>r \<in> set out. \<forall>s. Sales r = Val s \<longrightarrow>
              (\<exists>q1 q3. quantile (map Sales pre) (1 / 4) = Val q1 \<and>
                 quantile (map Sales pre) (3 / 4) = Val q3 \<and>
                 q1 - 3 / 2 * (q3 - q1) \<le> s \<and> s \<le> q3 + 3 / 2 * (q3 - q1)))"
proof -
  obtain pre where pre: "clean_columns t = Inr pre" and out: "out = clean_outliers pre"
    using assms by (auto simp: readCsvAndCleanData_Inr)
  have "\<exists>q1 q3. quantile (map Sales pre) (1 / 4) = Val q1 \<and>
                 quantile (map Sales pre) (3 / 4) = Val q3 \<and>
                 q1 - 3 / 2 * (q3 - q1) \<le> s \<and> s \<le> q3 + 3 / 2 * (q3 - q1)"
    if r: "r \<in> set out" and s: "Sales r = Val s" for r s
  proof -
    have rin: "r \<in> set pre" and lo: "\<not> lt (Sales r) (lowerB pre)" and hi: "\<not> lt (upperB pre) (Sales r)"
      using r by (auto simp: out clean_outliers_def)
    have "s \<in> set (dropna (map Sales pre))" using rin s by (force simp: set_dropna)
    then have ne: "dropna (map Sales pre) \<noteq> []" by auto
    obtain q1 q3 where q: "quantile (map Sales pre) (1 / 4) = Val q1"
      "quantile (map Sales pre) (3 / 4) = Val q3"
      using quantile_Val[OF ne] by blast
    show ?thesis using lo hi s q bounds_Val[OF q] by auto
  qed
  then show ?thesis using pre out by blast
qed

theorem sales_within_fence_of_unfiltered_frame_witness:
  "readCsvAndCleanData (map sample [10, 11, 12, 13, 1000]) = Inr (map sample [10, 11, 12, 13]) \<and>
   (\<exists>pre. clean_columns (map sample [10, 11, 12, 13, 1000]) = Inr pre \<and>
      map sample [10, 11, 12, 13] = clean_outliers pre \<and>
      (\<forall>r \<in> set (map sample [10, 11, 12, 13]). \<forall>s. Sales r = Val s \<longrightarrow>
         (\<exists>q1 q3. quantile (map Sales pre) (1 / 4) = Val q1 \<and>
            quantile (map Sales pre) (3 / 4) = Val q3 \<and>
            q1 - 3 / 2 * (q3 - q1) \<le> s \<and> s \<le> q3 + 3 / 2 * (q3 - q1))))"
proof -
  have run: "readCsvAndCleanData (map sample [10, 11, 12, 13, 1000]) = Inr (map sample [10, 11, 12, 13])"
    by code_simp
  show ?thesis using run sales_within_fence_of_unfiltered_frame [OF run] by simp
qed

text \<open>
  Seven rows with the sales 1, 2, 3, 4, 5, 10 and 100. The fence of the seven is
  \<open>[-5, 15]\<close> and removes 100 only; the quartiles of the six that are returned are
  2.25 and 4.75, their upper bound is 8.5, and the sale of 10 that was kept is above it.
\<close>

theorem fence_not_fixed_point_counterexample:
  "readCsvAndCleanData (map sample [1, 2, 3, 4, 5, 10, 100]) = Inr (map sample [1, 2, 3, 4, 5, 10]) \<and>
   quantile (map Sales (map sample [1, 2, 3, 4, 5, 10])) (1 / 4) = Val (9 / 4) \<and>
   quantile (map Sales (map sample [1, 2, 3, 4, 5, 10])) (3 / 4) = Val (19 / 4) \<and>
   upperB (map sample [1, 2, 3, 4, 5, 10]) = Val (17 / 2) \<and>
   Sales (map sample [1, 2, 3, 4, 5, 10] ! 5) = Val 10 \<and>
   lt (upperB (map sample [1, 2, 3, 4, 5, 10])) (Sales (map sample [1, 2, 3, 4, 5, 10] ! 5))"
  by code_simp

text \<open>
  C7 (amended). The returned frame has at most as many rows as the input. Rows are lost
  in three places only: among equal rows all but the first, the rows without a Category,
  and the rows that the outlier filter removes. The frame before the outlier filter has
  exactly the rows of the input that are neither repeats nor without Category, so it has
  as many rows as an input free of both.
\<close>

theorem row_count_decreases_by_three_operations:
  assumes "readCsvAndCleanData t = Inr out"
  shows "length out \<le> length t \<and>
         (\<exists>pre. clean_columns t = Inr pre \<and> out = clean_outliers pre \<and>
            length out \<le> length pre \<and>
            length pre = length (filter (\<lambda>r. Category r \<noteq> None) (drop_duplicates t)) \<and>
            (distinct t \<and> list_all (\<lambda>r. Category r \<noteq> None) t \<longrightarrow> length pre = length t))"
proof -
  obtain pre where pre: "clean_columns t = Inr pre" and out: "out = clean_outliers pre"
    using assms by (auto simp: readCsvAndCleanData_Inr)
  have l1: "length out \<le> length pre" by (simp add: out clean_outliers_def)
  have l2: "length pre = length (filter (\<lambda>r. Category r \<noteq> None) (drop_duplicates t))"
    using pre by (auto simp: clean_columns_Inr category_ops_def)
  have "length (filter (\<lambda>r. Category r \<noteq> None) (drop_duplicates t)) \<le> length (drop_duplicates t)"
    by (rule length_filter_le)
  then have l3: "length pre \<le> length t" using l2 length_drop_duplicates[of t] by linarith
  have l4: "length pre = length t" if "distinct t \<and> list_all (\<lambda>r. Category r \<noteq> None) t"
  proof -
    have "filter (\<lambda>r. Category r \<noteq> None) t = t" using that by (simp add: list_all_iff)
    then show ?thesis using l2 that by (simp add: drop_duplicates_id)
  qed
  show ?thesis using pre out l1 l2 l3 l4 by auto
qed

theorem row_count_decreases_by_three_operations_witness:
  "readCsvAndCleanData
     [sample 10, sample 10, (sample 11)\<lparr>Category := None\<rparr>, sample 12, sample 13, sample 14, sample 1000] =
   Inr (map sample [10, 12, 13, 14]) \<and>
   length (map sample [10, 12, 13, 14]) \<le>
   length [sample 10, sample 10, (sample 11)\<lparr>Category := None\<rparr>, sample 12, sample 13, sample 14, sample 1000]"
proof -
  have run: "readCsvAndCleanData
     [sample 10, sample 10, (sample 11)\<lparr>Category := None\<rparr>, sample 12, sample 13, sample 14, sample 1000] =
   Inr (map sample [10, 12, 13, 14])"
    by code_simp
  show ?thesis using run row_count_decreases_by_three_operations [OF run] by simp
qed

text \<open>
  Five rows, no two equal, each with a Category: the fence of the sales 10, 11, 12, 13
  and 1000 is \<open>[8, 16]\<close>, and the row with the sale of 1000 is removed by it.
\<close>

theorem outlier_filter_drops_row_counterexample:
  "distinct (map sample [10, 11, 12, 13, 1000]) \<and>
   list_all (\<lambda>r. Category r \<noteq> None) (map sample [10, 11, 12, 13, 1000]) \<and>
   readCsvAndCleanData (map sample [10, 11, 12, 13, 1000]) = Inr (map sample [10, 11, 12, 13]) \<and>
   length (map sample [10, 11, 12, 13]) < length (map sample [10, 11, 12, 13, 1000])"
  by code_simp

text \<open>
  C5 (amended). The Date section replaces every missing or unreadable date by one value:
  a valid date of the column that no other occurs more often than, and, of the dates tied
  for that, the earliest in time. Valid dates are left as they are.
\<close>

theorem date_filled_with_smallest_modal_date:
  assumes "date_ops df = Inr df'"
  shows "\<exists>m. m \<in> set (dropna (map Date df)) \<and>
           (\<forall>w \<in> set (dropna (map Date df)).
              count_list (dropna (map Date df)) w \<le> count_list (dropna (map Date df)) m \<and>
              (count_list (dropna (map Date df)) w = count_list (dropna (map Date df)) m \<longrightarrow> m \<le> w)) \<and>
           df' = map (\<lambda>r. r\<lparr>Date := (case Date r of Val d \<Rightarrow> Val d | _ \<Rightarrow> Val m)\<rparr>) df"
proof -
  obtain m ms where mo: "mode (map Date df) = m # ms"
    and df': "df' = map (\<lambda>r. r\<lparr>Date := fillna (Val m) (coerce (Date r))\<rparr>) df"
    using assms by (auto simp: date_ops_Inr mode_coerce_map)
  have "fillna (Val m) (coerce c) = (case c of Val d \<Rightarrow> Val d | _ \<Rightarrow> Val m)" for c :: "timestamp cell"
    by (cases c) simp_all
  then have 1: "df' = map (\<lambda>r. r\<lparr>Date := (case Date r of Val d \<Rightarrow> Val d | _ \<Rightarrow> Val m)\<rparr>) df"
    using df' by simp
  note h = mode_hd[OF mo]
  have 2: "count_list (dropna (map Date df)) w \<le> count_list (dropna (map Date df)) m \<and>
              (count_list (dropna (map Date df)) w = count_list (dropna (map Date df)) m \<longrightarrow> m \<le> w)"
    if w: "w \<in> set (dropna (map Date df))" for w
  proof
    show "count_list (dropna (map Date df)) w \<le> count_list (dropna (map Date df)) m"
      using h(2) w by blast
    show "count_list (dropna (map Date df)) w = count_list (dropna (map Date df)) m \<longrightarrow> m \<le> w"
      using h(2,3) w by metis
  qed
  show ?thesis using h(1) 1 2 by blast
qed

theorem date_filled_with_smallest_modal_date_witness:
  "date_ops
     [(sample 1)\<lparr>Date := Val 5\<rparr>, (sample 2)\<lparr>Date := Str ''tomorrow''\<rparr>,
      (sample 3)\<lparr>Date := Val 7\<rparr>, (sample 4)\<lparr>Date := Val 7\<rparr>, (sample 5)\<lparr>Date := NA\<rparr>] =
   Inr [(sample 1)\<lparr>Date := Val 5\<rparr>, (sample 2)\<lparr>Date := Val 7\<rparr>,
      (sample 3)\<lparr>Date := Val 7\<rparr>, (sample 4)\<lparr>Date := Val 7\<rparr>, (sample 5)\<lparr>Date := Val 7\<rparr>] \<and>
   (\<exists>m. (m = 5 \<or> m = 7) \<and> 2 \<le> count_list [5, 7, 7 :: timestamp] m \<and>
      [(sample 1)\<lparr>Date := Val 5\<rparr>, (sample 2)\<lparr>Date := Val 7\<rparr>,
      (sample 3)\<lparr>Date := Val 7\<rparr>, (sample 4)\<lparr>Date := Val 7\<rparr>, (sample 5)\<lparr>Date := Val 7\<rparr>] =
      [(sample 1)\<lparr>Date := Val 5\<rparr>, (sample 2)\<lparr>Date := Val m\<rparr>,
      (sample 3)\<lparr>Date := Val 7\<rparr>, (sample 4)\<lparr>Date := Val 7\<rparr>, (sample 5)\<lparr>Date := Val m\<rparr>])"
proof -
  have run: "date_ops
     [(sample 1)\<lparr>Date := Val 5\<rparr>, (sample 2)\<lparr>Date := Str ''tomorrow''\<rparr>,
      (sample 3)\<lparr>Date := Val 7\<rparr>, (sample 4)\<lparr>Date := Val 7\<rparr>, (sample 5)\<lparr>Date := NA\<rparr>] =
   Inr [(sample 1)\<lparr>Date := Val 5\<rparr>, (sample 2)\<lparr>Date := Val 7\<rparr>,
      (sample 3)\<lparr>Date := Val 7\<rparr>, (sample 4)\<lparr>Date := Val 7\<rparr>, (sample 5)\<lparr>Date := Val 7\<rparr>]"
    by code_simp
  show ?thesis using run date_filled_with_smallest_modal_date [OF run] by auto
qed

text \<open>
  Three rows with the dates 20, 10 and a missing one. Both dates occur once; the date met
  first is 20, and the missing date is filled with 10, the earlier of the two.
\<close>

theorem modal_date_tie_counterexample:
  "date_ops [(sample 1)\<lparr>Date := Val 20\<rparr>, (sample 2)\<lparr>Date := Val 10\<rparr>, (sample 3)\<lparr>Date := NA\<rparr>] =
   Inr [(sample 1)\<lparr>Date := Val 20\<rparr>, (sample 2)\<lparr>Date := Val 10\<rparr>, (sample 3)\<lparr>Date := Val 10\<rparr>] \<and>
   first_encountered_mode
     (map Date [(sample 1)\<lparr>Date := Val 20\<rparr>, (sample 2)\<lparr>Date := Val 10\<rparr>, (sample 3)\<lparr>Date := NA\<rparr>]) =
   Some 20"
  by code_simp

section \<open>Facts about the wrangler\<close>

lemma collect_Inr: "collect f xs = Inr ys \<longleftrightarrow> list_all2 (\<lambda>x y. f x = Inr y) xs ys"
proof (induction xs arbitrary: ys)
  case Nil
  then show ?case by auto
next
  case (Cons x xs)
  show ?case
  proof (cases "f x")
    case (Inl e)
    then show ?thesis by (auto simp: list_all2_Cons1)
  next
    case (Inr y)
    then show ?thesis using Cons.IH
      by (cases "collect f xs") (auto simp: list_all2_Cons1)
  qed
qed

lemma performDataWrangling_Inr:
  assumes "performDataWrangling df = Inr (w, out)"
  shows "\<exists>margins statuses tab.
           list_all2 (\<lambda>r m. truediv (Profit r) (Sales r) = Inr m) df margins \<and>
           list_all2 (\<lambda>r s. mature (Age r) = Inr s) df statuses \<and>
           groupby_sum df = Inr tab \<and>
           w = map (\<lambda>(r, m, s). add_columns r m s) (zip df (zip margins statuses)) \<and>
           out = [Print_discountByProducts tab]"
  using assms by (auto simp: performDataWrangling_def collect_Inr split: sum.splits)

lemma wrangled_rows:
  assumes "performDataWrangling df = Inr (w, out)"
  shows "length w = length df"
    and "i < length df \<Longrightarrow> \<exists>m s. truediv (Profit (df ! i)) (Sales (df ! i)) = Inr m \<and>
           mature (Age (df ! i)) = Inr s \<and> w ! i = add_columns (df ! i) m s"
proof -
  obtain margins statuses where m: "list_all2 (\<lambda>r m. truediv (Profit r) (Sales r) = Inr m) df margins"
    and s: "list_all2 (\<lambda>r s. mature (Age r) = Inr s) df statuses"
    and w: "w = map (\<lambda>(r, m, s). add_columns r m s) (zip df (zip margins statuses))"
    using performDataWrangling_Inr[OF assms] by blast
  have lm: "length margins = length df" and ls: "length statuses = length df"
    using list_all2_lengthD[OF m] list_all2_lengthD[OF s] by simp_all
  show "length w = length df" by (simp add: w lm ls)
  show "\<exists>m s. truediv (Profit (df ! i)) (Sales (df ! i)) = Inr m \<and>
           mature (Age (df ! i)) = Inr s \<and> w ! i = add_columns (df ! i) m s" if i: "i < length df"
  proof -
    have "truediv (Profit (df ! i)) (Sales (df ! i)) = Inr (margins ! i)"
      using list_all2_nthD[OF m i] .
    moreover have "mature (Age (df ! i)) = Inr (statuses ! i)"
      using list_all2_nthD[OF s i] .
    moreover have "w ! i = add_columns (df ! i) (margins ! i) (statuses ! i)"
      using i lm ls by (simp add: w)
    ultimately show ?thesis by blast
  qed
qed

lemma add_columns_sel [simp]:
  "Age (add_columns r m s) = Age r" "Gender (add_columns r m s) = Gender r"
  "Sales (add_columns r m s) = Sales r" "Profit (add_columns r m s) = Profit r"
  "Date (add_columns r m s) = Date r" "Category (add_columns r m s) = Category r"
  "Discount (add_columns r m s) = Discount r" "Profit_Margin (add_columns r m s) = m"
  "Mature_Status (add_columns r m s) = s"
  by (simp_all add: add_columns_def)

lemma truncate_add_columns [simp]: "row.truncate (add_columns r m s) = r"
  by (simp add: add_columns_def row.truncate_def)

text \<open>
  C6. In the frame the wrangler returns, the Profit Margin of every row is the float
  quotient of that row's own Profit by its own Sales: the real quotient when Sales is not
  zero, and with no guard at zero, where it is an infinity of the sign of Profit, or NaN
  for zero by zero.
\<close>

theorem profit_margin_is_profit_by_sales:
  assumes "performDataWrangling df = Inr (w, out)"
  shows "length w = length df \<and>
         (\<forall>i < length w.
            Profit (w ! i) = Profit (df ! i) \<and> Sales (w ! i) = Sales (df ! i) \<and>
            truediv (Profit (w ! i)) (Sales (w ! i)) = Inr (Profit_Margin (w ! i)) \<and>
            (\<forall>p s. Profit (w ! i) = Val p \<and> Sales (w ! i) = Val s \<longrightarrow>
               (s \<noteq> 0 \<longrightarrow> Profit_Margin (w ! i) = Fin (p / s)) \<and>
               (s = 0 \<longrightarrow> Profit_Margin (w ! i) =
                  (if 0 < p then PosInf else if p < 0 then NegInf else NaN))))"
proof (intro conjI allI impI)
  show len: "length w = length df" by (rule wrangled_rows(1)[OF assms])
  fix i assume "i < length w"
  then have i: "i < length df" using len by simp
  obtain m s where t: "truediv (Profit (df ! i)) (Sales (df ! i)) = Inr m"
    and wi: "w ! i = add_columns (df ! i) m s"
    using wrangled_rows(2)[OF assms i] by blast
  show "Profit (w ! i) = Profit (df ! i)" "Sales (w ! i) = Sales (df ! i)"
    "truediv (Profit (w ! i)) (Sales (w ! i)) = Inr (Profit_Margin (w ! i))"
    using t by (simp_all add: wi)
  fix p s' assume ps: "Profit (w ! i) = Val p \<and> Sales (w ! i) = Val s'"
  then have "truediv (Val p) (Val s') = Inr (Profit_Margin (w ! i))" using t by (simp add: wi)
  then show "s' \<noteq> 0 \<Longrightarrow> Profit_Margin (w ! i) = Fin (p / s')"
    and "s' = 0 \<Longrightarrow> Profit_Margin (w ! i) = (if 0 < p then PosInf else if p < 0 then NegInf else NaN)"
    by (auto split: if_splits)
qed

theorem profit_margin_is_profit_by_sales_witness:
  "performDataWrangling [sample 100, sample 0, (sample 0)\<lparr>Profit := Val 0\<rparr>] =
   Inr ([add_columns (sample 100) (Fin (1 / 5)) ''Mature'', add_columns (sample 0) PosInf ''Mature'',
         add_columns ((sample 0)\<lparr>Profit := Val 0\<rparr>) NaN ''Mature''],
        [Print_discountByProducts [(''A'', 0)]]) \<and>
   truediv (Val 20) (Val 100) = Inr (Fin (1 / 5)) \<and> truediv (Val 20) (Val 0) = Inr PosInf \<and>
   truediv (Val 0) (Val 0) = Inr NaN"
proof -
  have run: "performDataWrangling [sample 100, sample 0, (sample 0)\<lparr>Profit := Val 0\<rparr>] =
   Inr ([add_columns (sample 100) (Fin (1 / 5)) ''Mature'', add_columns (sample 0) PosInf ''Mature'',
         add_columns ((sample 0)\<lparr>Profit := Val 0\<rparr>) NaN ''Mature''],
        [Print_discountByProducts [(''A'', 0)]])"
    by code_simp
  show ?thesis using run profit_margin_is_profit_by_sales [OF run] by (simp add: sample_def)
qed

text \<open>
  C9. The wrangler adds the two columns and changes nothing else: the returned frame, cut
  back to the seven columns of the input, is the input, row for row and in the same order.
\<close>

theorem wrangler_keeps_original_columns:
  assumes "performDataWrangling df = Inr (w, out)"
  shows "map row.truncate w = df \<and> length w = length df \<and>
         (\<forall>i < length df.
            Age (w ! i) = Age (df ! i) \<and> Gender (w ! i) = Gender (df ! i) \<and>
            Sales (w ! i) = Sales (df ! i) \<and> Profit (w ! i) = Profit (df ! i) \<and>
            Date (w ! i) = Date (df ! i) \<and> Category (w ! i) = Category (df ! i) \<and>
            Discount (w ! i) = Discount (df ! i))"
proof -
  have len: "length w = length df" by (rule wrangled_rows(1)[OF assms])
  have row: "row.truncate (w ! i) = df ! i" if "i < length df" for i
    using wrangled_rows(2)[OF assms that] by auto
  have "map row.truncate w = df" using len row by (simp add: list_eq_iff_nth_eq)
  moreover have "Age (w ! i) = Age (df ! i) \<and> Gender (w ! i) = Gender (df ! i) \<and>
            Sales (w ! i) = Sales (df ! i) \<and> Profit (w ! i) = Profit (df ! i) \<and>
            Date (w ! i) = Date (df ! i) \<and> Category (w ! i) = Category (df ! i) \<and>
            Discount (w ! i) = Discount (df ! i)" if "i < length df" for i
    using wrangled_rows(2)[OF assms that] by auto
  ultimately show ?thesis using len by blast
qed

theorem wrangler_keeps_original_columns_witness:
  "performDataWrangling [sample 100, (sample 50)\<lparr>Age := Val 20\<rparr>] =
   Inr ([add_columns (sample 100) (Fin (1 / 5)) ''Mature'',
         add_columns ((sample 50)\<lparr>Age := Val 20\<rparr>) (Fin (2 / 5)) ''Not Mature''],
        [Print_discountByProducts [(''A'', 0)]]) \<and>
   map row.truncate [add_columns (sample 100) (Fin (1 / 5)) ''Mature'',
         add_columns ((sample 50)\<lparr>Age := Val 20\<rparr>) (Fin (2 / 5)) ''Not Mature''] =
   [sample 100, (sample 50)\<lparr>Age := Val 20\<rparr>]"
proof -
  have run: "performDataWrangling [sample 100, (sample 50)\<lparr>Age := Val 20\<rparr>] =
   Inr ([add_columns (sample 100) (Fin (1 / 5)) ''Mature'',
         add_columns ((sample 50)\<lparr>Age := Val 20\<rparr>) (Fin (2 / 5)) ''Not Mature''],
        [Print_discountByProducts [(''A'', 0)]])"
    by code_simp
  show ?thesis using run wrangler_keeps_original_columns [OF run] by simp
qed

lemma sum_list_dropna: "sum_list (dropna col) = sum_list (map nan_to_zero col)"
  by (induction col rule: dropna.induct) simp_all

lemma set_present: "set (List.map_filter f xs) = {y. \<exists>x \<in> set xs. f x = Some y}"
  by (induction xs) (auto split: option.splits)

lemma set_categories: "set (categories df) = {c. \<exists>r \<in> set df. Category r = Some c}"
  by (simp add: categories_def set_present)

lemma sorted_categories: "sorted (categories df)" and distinct_categories: "distinct (categories df)"
  by (simp_all add: categories_def)

lemma group_sum_eq:
  "group_sum df c = sum_list (map (\<lambda>r. nan_to_zero (Discount r)) (filter (\<lambda>r. Category r = Some c) df))"
  by (simp add: group_sum_def sum_list_dropna comp_def)

text \<open>
  C8. The wrangler prints one table and nothing else: a line for each Category value that
  occurs in the frame it is given, each once, in ascending lexical order of the Category,
  with the sum of the Discount of the rows of that Category.
\<close>

theorem discount_summed_per_category_in_order:
  assumes "performDataWrangling df = Inr (w, out)"
  shows "\<exists>tab. out = [Print_discountByProducts tab] \<and>
           sorted (map fst tab) \<and> distinct (map fst tab) \<and>
           set (map fst tab) = {c. \<exists>r \<in> set df. Category r = Some c} \<and>
           (\<forall>(c, total) \<in> set tab.
              total = sum_list (map (\<lambda>r. nan_to_zero (Discount r))
                                 (filter (\<lambda>r. Category r = Some c) df)))"
proof -
  obtain tab where g: "groupby_sum df = Inr tab" and out: "out = [Print_discountByProducts tab]"
    using performDataWrangling_Inr[OF assms] by blast
  have tab: "tab = map (\<lambda>c. (c, group_sum df c)) (categories df)"
    using g by (simp add: groupby_sum_def split: if_splits)
  have keys: "map fst tab = categories df" by (simp add: tab comp_def)
  have "\<forall>(c, total) \<in> set tab.
              total = sum_list (map (\<lambda>r. nan_to_zero (Discount r))
                                 (filter (\<lambda>r. Category r = Some c) df))"
    by (auto simp: tab group_sum_eq)
  then show ?thesis
    using out keys sorted_categories[of df] distinct_categories[of df] set_categories[of df]
    by (metis (no_types, lifting))
qed

theorem discount_summed_per_category_in_order_witness:
  "performDataWrangling
     [(sample 100)\<lparr>Category := Some ''Toys'', Discount := Val 5\<rparr>,
      (sample 90)\<lparr>Category := Some ''Books'', Discount := Val 2\<rparr>,
      (sample 80)\<lparr>Category := Some ''Toys'', Discount := NA\<rparr>,
      (sample 70)\<lparr>Category := Some ''Toys'', Discount := Val 10\<rparr>] =
   Inr ([add_columns ((sample 100)\<lparr>Category := Some ''Toys'', Discount := Val 5\<rparr>) (Fin (1 / 5)) ''Mature'',
         add_columns ((sample 90)\<lparr>Category := Some ''Books'', Discount := Val 2\<rparr>) (Fin (2 / 9)) ''Mature'',
         add_columns ((sample 80)\<lparr>Category := Some ''Toys'', Discount := NA\<rparr>) (Fin (1 / 4)) ''Mature'',
         add_columns ((sample 70)\<lparr>Category := Some ''Toys'', Discount := Val 10\<rparr>) (Fin (2 / 7)) ''Mature''],
        [Print_discountByProducts [(''Books'', 2), (''Toys'', 15)]]) \<and>
   (\<exists>tab. [Print_discountByProducts [(''Books'', 2), (''Toys'', 15)]] = [Print_discountByProducts tab] \<and>
      sorted (map fst tab) \<and> distinct (map fst tab))"
proof -
  have run: "performDataWrangling
     [(sample 100)\<lparr>Category := Some ''Toys'', Discount := Val 5\<rparr>,
      (sample 90)\<lparr>Category := Some ''Books'', Discount := Val 2\<rparr>,
      (sample 80)\<lparr>Category := Some ''Toys'', Discount := NA\<rparr>,
      (sample 70)\<lparr>Category := Some ''Toys'', Discount := Val 10\<rparr>] =
   Inr ([add_columns ((sample 100)\<lparr>Category := Some ''Toys'', Discount := Val 5\<rparr>) (Fin (1 / 5)) ''Mature'',
         add_columns ((sample 90)\<lparr>Category := Some ''Books'', Discount := Val 2\<rparr>) (Fin (2 / 9)) ''Mature'',
         add_columns ((sample 80)\<lparr>Category := Some ''Toys'', Discount := NA\<rparr>) (Fin (1 / 4)) ''Mature'',
         add_columns ((sample 70)\<lparr>Category := Some ''Toys'', Discount := Val 10\<rparr>) (Fin (2 / 7)) ''Mature''],
        [Print_discountByProducts [(''Books'', 2), (''Toys'', 15)]])"
    by code_simp
  show ?thesis using run discount_summed_per_category_in_order [OF run] by blast
qed

text \<open>
  C10. The analyzer leaves the frame as it was given, so the rows that the program writes
  to the file are the frame that the wrangler returned.
\<close>

theorem analyzer_leaves_frame_unchanged:
  "(performEDA w = Inr (w', out) \<longrightarrow> w' = w) \<and>
   (main file = Inr (printed, written) \<longrightarrow>
      (\<exists>cleaned out1. readCsvAndCleanData file = Inr cleaned \<and>
         performDataWrangling cleaned = Inr (written, out1)))"
proof (intro conjI impI)
  assume "performEDA w = Inr (w', out)"
  then show "w' = w" by (auto simp: performEDA_def split: if_splits)
next
  have eda: "a = b" if "performEDA a = Inr (b, c)" for a b c
    using that by (auto simp: performEDA_def split: if_splits)
  assume "main file = Inr (printed, written)"
  then show "\<exists>cleaned out1. readCsvAndCleanData file = Inr cleaned \<and>
         performDataWrangling cleaned = Inr (written, out1)"
    by (auto simp: main_def split: sum.splits prod.splits dest: eda)
qed

theorem analyzer_leaves_frame_unchanged_witness:
  "(\<exists>printed. main [sample 100, sample 100, sample 0] =
      Inr (printed, [add_columns (sample 100) (Fin (1 / 5)) ''Mature'',
                     add_columns (sample 0) PosInf ''Mature''])) \<and>
   (\<exists>out. performEDA [add_columns (sample 100) (Fin (1 / 5)) ''Mature''] =
      Inr ([add_columns (sample 100) (Fin (1 / 5)) ''Mature''], out)) \<and>
   (\<exists>cleaned out1. readCsvAndCleanData [sample 100, sample 100, sample 0] = Inr cleaned \<and>
      performDataWrangling cleaned =
      Inr ([add_columns (sample 100) (Fin (1 / 5)) ''Mature'',
            add_columns (sample 0) PosInf ''Mature''], out1))"
proof -
  have "map_sum id snd (main [sample 100, sample 100, sample 0]) =
      Inr [add_columns (sample 100) (Fin (1 / 5)) ''Mature'', add_columns (sample 0) PosInf ''Mature'']"
    by code_simp
  then obtain printed where run: "main [sample 100, sample 100, sample 0] =
      Inr (printed, [add_columns (sample 100) (Fin (1 / 5)) ''Mature'',
                     add_columns (sample 0) PosInf ''Mature''])"
    by (cases "main [sample 100, sample 100, sample 0]") auto
  have "map_sum id fst (performEDA [add_columns (sample 100) (Fin (1 / 5)) ''Mature'']) =
      Inr [add_columns (sample 100) (Fin (1 / 5)) ''Mature'']"
    by code_simp
  then obtain out where eda: "performEDA [add_columns (sample 100) (Fin (1 / 5)) ''Mature''] =
      Inr ([add_columns (sample 100) (Fin (1 / 5)) ''Mature''], out)"
    by (cases "performEDA [add_columns (sample 100) (Fin (1 / 5)) ''Mature'']") auto
  show ?thesis
    using run eda
      analyzer_leaves_frame_unchanged
        [of "[add_columns (sample 100) (Fin (1 / 5)) ''Mature'']"
            "[add_columns (sample 100) (Fin (1 / 5)) ''Mature'']" out
            "[sample 100, sample 100, sample 0]" printed
            "[add_columns (sample 100) (Fin (1 / 5)) ''Mature'', add_columns (sample 0) PosInf ''Mature'']"]
    by blast
qed

section \<open>Facts about a second run\<close>

lemma uniform_fill:
  assumes "\<not> list_ex is_Str col"
  shows "uniform (map (fillna (median (dropna col))) col)"
proof (cases "dropna col = []")
  case True
  have "c = NA" if "c \<in> set col" for c
  proof (cases c)
    case (Val x)
    then show ?thesis using True that by (auto simp: dropna_Nil list_ex_iff)
  next
    case (Str s)
    then show ?thesis using assms that by (auto simp: list_ex_iff)
  qed simp
  then have "\<forall>c \<in> set col. fillna NA c = NA" by (metis fillna.simps(1))
  then show ?thesis using True by (simp add: uniform_def median_def list_all_iff)
next
  case False
  then obtain m where "median (dropna col) = Val m" using median_Val by blast
  moreover have "\<not> is_Str c" if "c \<in> set col" for c using assms that by (auto simp: list_ex_iff)
  ultimately show ?thesis by (auto simp: uniform_def list_all_iff is_Val_fillna)
qed

lemma uniform_subset: "uniform col \<Longrightarrow> set col' \<subseteq> set col \<Longrightarrow> uniform col'"
  by (auto simp: uniform_def list_all_iff)

lemma not_Str_coerce: "\<not> list_ex is_Str (map coerce col)"
  by (induction col rule: dropna.induct) auto

lemma uniform_fill_coerce: "uniform (map (\<lambda>c. fillna (median (dropna col)) (coerce c)) col)"
  using uniform_fill[OF not_Str_coerce, of col] by (simp add: dropna_coerce comp_def)

lemma uniform_id:
  assumes "uniform col" and "c \<in> set col"
  shows "fillna (median (dropna col)) (coerce c) = c" and "fillna (median (dropna col)) c = c"
    and "\<not> is_Str c"
proof -
  consider "list_all is_Val col" | "list_all (\<lambda>c. c = NA) col" using assms(1) by (auto simp: uniform_def)
  then have "fillna (median (dropna col)) (coerce c) = c \<and> fillna (median (dropna col)) c = c \<and> \<not> is_Str c"
  proof cases
    case 1
    then have "is_Val c" using assms(2) by (simp add: list_all_iff)
    then show ?thesis by (cases c) simp_all
  next
    case 2
    then have "dropna col = []" by (auto simp: dropna_Nil list_ex_iff list_all_iff)
    moreover have "c = NA" using 2 assms(2) by (simp add: list_all_iff)
    ultimately show ?thesis by (simp add: median_def)
  qed
  then show "fillna (median (dropna col)) (coerce c) = c" "fillna (median (dropna col)) c = c" "\<not> is_Str c"
    by simp_all
qed

lemma clean_frame_subset:
  assumes "clean_frame df" and "set df' \<subseteq> set df"
  shows "clean_frame df'"
proof -
  have "set (map f df') \<subseteq> set (map f df)" for f :: "row \<Rightarrow> real cell"
    using assms(2) by auto
  then show ?thesis using assms uniform_subset unfolding clean_frame_def list_all_iff
    by (metis (no_types, lifting) subsetD)
qed

lemma replace_empty_fill: "\<exists>y. replace_empty (fillna_text ''Other'' g) = Some y"
  "replace_empty (fillna_text ''Other'' g) \<noteq> Some []"
  by (cases g; simp)+

lemma clean_frame_columns:
  assumes "clean_columns t = Inr pre"
  shows "clean_frame pre"
proof -
  define d where "d = drop_duplicates t"
  define c where "c = category_ops d"
  obtain md and ms :: "timestamp list" where nostr: "\<not> list_ex (\<lambda>r. is_Str (Age r)) d"
    and pre: "pre = map (clean_row (median (dropna (map Age d)))
                    (median (dropna (map Sales d))) (median (dropna (map Profit d))) md) c"
    using assms unfolding clean_columns_Inr d_def c_def by (auto simp: list_ex_iff set_drop_duplicates)
  have sub: "set c \<subseteq> set d" by (auto simp: c_def category_ops_def)
  have "uniform (map (fillna (median (dropna (map Age d)))) (map Age d))"
    using nostr by (intro uniform_fill) (simp add: list_ex_map)
  then have a: "uniform (map Age pre)"
    by (rule uniform_subset) (use sub in \<open>auto simp: pre\<close>)
  have "uniform (map (\<lambda>c. fillna (median (dropna (map Sales d))) (coerce c)) (map Sales d))"
    by (rule uniform_fill_coerce)
  then have s: "uniform (map Sales pre)"
    by (rule uniform_subset) (use sub in \<open>auto simp: pre\<close>)
  have "uniform (map (\<lambda>c. fillna (median (dropna (map Profit d))) (coerce c)) (map Profit d))"
    by (rule uniform_fill_coerce)
  then have p: "uniform (map Profit pre)"
    by (rule uniform_subset) (use sub in \<open>auto simp: pre\<close>)
  have "list_all (\<lambda>r. Gender r \<noteq> None \<and> Gender r \<noteq> Some [] \<and> is_Val (Date r) \<and>
                     Category r \<noteq> None \<and> is_Val (Discount r)) pre"
    by (simp add: pre list_all_iff replace_empty_fill is_Val_fillna_coerce c_def category_ops_def)
  then show ?thesis using a s p by (simp add: clean_frame_def)
qed

lemma clean_row_id:
  assumes "fillna mA (Age r) = Age r" and "replace_empty (fillna_text ''Other'' (Gender r)) = Gender r"
    and "fillna mS (coerce (Sales r)) = Sales r" and "fillna mP (coerce (Profit r)) = Profit r"
    and "fillna (Val md) (coerce (Date r)) = Date r"
    and "fillna (Val 0) (coerce (Discount r)) = Discount r"
  shows "clean_row mA mS mP md r = r"
  using assms by (cases r) (simp add: clean_row_def)

lemma is_Val_fill_id: "is_Val c \<Longrightarrow> fillna v (coerce c) = c"
  by (cases c) simp_all

lemma gender_id: "g \<noteq> None \<Longrightarrow> g \<noteq> Some [] \<Longrightarrow> replace_empty (fillna_text ''Other'' g) = g"
  by (cases g) simp_all

lemma clean_columns_fixed:
  assumes cf: "clean_frame d" and ne: "d \<noteq> []" and di: "distinct d"
  shows "clean_columns d = Inr d"
proof -
  have rows: "Gender r \<noteq> None \<and> Gender r \<noteq> Some [] \<and> is_Val (Date r) \<and>
                Category r \<noteq> None \<and> is_Val (Discount r)" if "r \<in> set d" for r
    using cf that by (simp add: clean_frame_def list_all_iff)
  have ua: "uniform (map Age d)" and us: "uniform (map Sales d)" and up: "uniform (map Profit d)"
    using cf by (simp_all add: clean_frame_def)
  have nostr: "\<not> list_ex (\<lambda>r. is_Str (Age r)) d"
    using uniform_id(3)[OF ua] by (auto simp: list_ex_iff)
  have "is_Val (Date (hd d))" using rows ne by simp
  then have "dropna (map Date d) \<noteq> []" using ne by (auto simp: dropna_Nil list_ex_iff)
  then obtain md ms where mo: "mode (map Date d) = md # ms"
    using mode_Nil[of "map Date d"] by (cases "mode (map Date d)") auto
  have cat: "category_ops d = d" using rows by (simp add: category_ops_def)
  have "clean_row (median (dropna (map Age d))) (median (dropna (map Sales d)))
          (median (dropna (map Profit d))) md r = r" if r: "r \<in> set d" for r
  proof (rule clean_row_id)
    show "fillna (median (dropna (map Age d))) (Age r) = Age r"
      using uniform_id(2)[OF ua] r by simp
    show "fillna (median (dropna (map Sales d))) (coerce (Sales r)) = Sales r"
      using uniform_id(1)[OF us] r by simp
    show "fillna (median (dropna (map Profit d))) (coerce (Profit r)) = Profit r"
      using uniform_id(1)[OF up] r by simp
    show "replace_empty (fillna_text ''Other'' (Gender r)) = Gender r"
      using rows[OF r] by (simp add: gender_id)
    show "fillna (Val md) (coerce (Date r)) = Date r" "fillna (Val 0) (coerce (Discount r)) = Discount r"
      using rows[OF r] by (simp_all add: is_Val_fill_id)
  qed
  then have "map (clean_row (median (dropna (map Age d))) (median (dropna (map Sales d)))
          (median (dropna (map Profit d))) md) d = d"
    by (simp add: map_idI)
  then show ?thesis using nostr mo cat di by (simp add: clean_columns_eq drop_duplicates_id)
qed

lemma clean_columns_drop_duplicates: "clean_columns (drop_duplicates t) = clean_columns t"
  by (simp add: clean_columns_def drop_duplicates_id distinct_drop_duplicates)

lemma clean_frame_cleaner:
  assumes "readCsvAndCleanData t = Inr out"
  shows "clean_frame out"
proof -
  obtain pre where pre: "clean_columns t = Inr pre" and out: "out = clean_outliers pre"
    using assms by (auto simp: readCsvAndCleanData_Inr)
  show ?thesis unfolding out
    by (rule clean_frame_subset[OF clean_frame_columns[OF pre]]) (auto simp: clean_outliers_def)
qed

text \<open>
  C3 (amended). When a first run returns a frame that is not empty, a second run on that
  frame succeeds and changes no cell: it returns the frame with the rows that repeat an
  earlier row removed and the outlier filter applied once more, with bounds taken anew.
  So the frame comes back unchanged when no two of its rows are equal and all its Sales
  lie within its own fence. A first run that returns the empty frame is followed by a
  second run that fails.
\<close>

theorem second_run_dedups_and_refences:
  assumes "readCsvAndCleanData t = Inr out"
  shows "(out \<noteq> [] \<longrightarrow>
            readCsvAndCleanData out = Inr (clean_outliers (drop_duplicates out))) \<and>
         (out \<noteq> [] \<and> distinct out \<and> clean_outliers out = out \<longrightarrow>
            readCsvAndCleanData out = Inr out) \<and>
         (out = [] \<longrightarrow> readCsvAndCleanData out = Inl KeyError)"
proof -
  have cf: "clean_frame out" by (rule clean_frame_cleaner[OF assms])
  have 1: "readCsvAndCleanData out = Inr (clean_outliers (drop_duplicates out))" if "out \<noteq> []"
  proof -
    have "clean_frame (drop_duplicates out)"
      by (rule clean_frame_subset[OF cf]) (simp add: set_drop_duplicates)
    moreover have "drop_duplicates out \<noteq> []"
      using that set_drop_duplicates[of out] by (metis set_empty)
    ultimately have "clean_columns (drop_duplicates out) = Inr (drop_duplicates out)"
      by (intro clean_columns_fixed) (simp_all add: distinct_drop_duplicates)
    then show ?thesis by (simp add: readCsvAndCleanData_def clean_columns_drop_duplicates)
  qed
  have 2: "readCsvAndCleanData out = Inr out" if "out \<noteq> [] \<and> distinct out \<and> clean_outliers out = out"
    using 1 that by (simp add: drop_duplicates_id)
  have 3: "readCsvAndCleanData [] = Inl KeyError"
    by (simp add: readCsvAndCleanData_Inl clean_columns_Inl)
  show ?thesis using 1 2 3 by blast
qed

theorem second_run_dedups_and_refences_witness:
  "readCsvAndCleanData (map sample [10, 11, 12, 13, 1000]) = Inr (map sample [10, 11, 12, 13]) \<and>
   map sample [10, 11, 12, 13] \<noteq> [] \<and> distinct (map sample [10, 11, 12, 13]) \<and>
   clean_outliers (map sample [10, 11, 12, 13]) = map sample [10, 11, 12, 13] \<and>
   readCsvAndCleanData (map sample [10, 11, 12, 13]) = Inr (map sample [10, 11, 12, 13])"
proof -
  have run: "readCsvAndCleanData (map sample [10, 11, 12, 13, 1000]) = Inr (map sample [10, 11, 12, 13])"
    by code_simp
  have h: "map sample [10, 11, 12, 13] \<noteq> [] \<and> distinct (map sample [10, 11, 12, 13]) \<and>
   clean_outliers (map sample [10, 11, 12, 13]) = map sample [10, 11, 12, 13]"
    by code_simp
  show ?thesis using run h second_run_dedups_and_refences [OF run] by blast
qed

text \<open>
  The first run on the sales 1, 2, 3, 4, 5, 10 and 100 returns the six rows up to 10; the
  second run, on those six, takes the upper bound 8.5 and removes the row with the sale
  of 10.
\<close>

theorem second_run_drops_row_counterexample:
  "readCsvAndCleanData (map sample [1, 2, 3, 4, 5, 10, 100]) = Inr (map sample [1, 2, 3, 4, 5, 10]) \<and>
   readCsvAndCleanData (map sample [1, 2, 3, 4, 5, 10]) = Inr (map sample [1, 2, 3, 4, 5]) \<and>
   map sample [1, 2, 3, 4, 5] \<noteq> map sample [1, 2, 3, 4, 5, 10]"
  by code_simp

section \<open>The later stages on a cleaned frame\<close>

lemma collect_total:
  assumes "\<forall>x \<in> set xs. \<exists>y. f x = Inr y"
  shows "\<exists>ys. collect f xs = Inr ys"
  using assms
proof (induction xs)
  case Nil
  then show ?case by simp
next
  case (Cons x xs)
  then obtain y ys where "f x = Inr y" "collect f xs = Inr ys" by auto
  then show ?case by simp
qed

lemma truediv_total: "\<not> is_Str a \<Longrightarrow> \<not> is_Str b \<Longrightarrow> \<exists>m. truediv a b = Inr m"
  by (cases a; cases b) simp_all

lemma mature_total: "\<not> is_Str a \<Longrightarrow> \<exists>s. mature a = Inr s"
  by (cases a) simp_all

lemma is_Val_not_Str: "is_Val c \<Longrightarrow> \<not> is_Str c"
  by (cases c) simp_all

lemma clean_frame_no_text:
  assumes "clean_frame df" and "r \<in> set df"
  shows "\<not> is_Str (Age r)" "\<not> is_Str (Sales r)" "\<not> is_Str (Profit r)" "\<not> is_Str (Discount r)"
proof -
  have ua: "uniform (map Age df)" and us: "uniform (map Sales df)" and up: "uniform (map Profit df)"
    and di: "is_Val (Discount r)"
    using assms by (simp_all add: clean_frame_def list_all_iff)
  have "Age r \<in> set (map Age df)" "Sales r \<in> set (map Sales df)" "Profit r \<in> set (map Profit df)"
    using assms(2) by simp_all
  then show "\<not> is_Str (Age r)" "\<not> is_Str (Sales r)" "\<not> is_Str (Profit r)"
    using uniform_id(3)[OF ua] uniform_id(3)[OF us] uniform_id(3)[OF up] by blast+
  show "\<not> is_Str (Discount r)" using di by (rule is_Val_not_Str)
qed

lemma wrangler_total:
  assumes "clean_frame df"
  shows "\<exists>w out. performDataWrangling df = Inr (w, out)"
proof -
  have "\<forall>r \<in> set df. \<exists>m. truediv (Profit r) (Sales r) = Inr m"
    using clean_frame_no_text[OF assms] truediv_total by blast
  then obtain margins where m: "collect (\<lambda>r. truediv (Profit r) (Sales r)) df = Inr margins"
    using collect_total[of df "\<lambda>r. truediv (Profit r) (Sales r)"] by blast
  have "\<forall>r \<in> set df. \<exists>s. mature (Age r) = Inr s"
    using clean_frame_no_text[OF assms] mature_total by blast
  then obtain statuses where s: "collect (\<lambda>r. mature (Age r)) df = Inr statuses"
    using collect_total[of df "\<lambda>r. mature (Age r)"] by blast
  have "\<not> list_ex is_Str (map Discount df)"
    using clean_frame_no_text(4)[OF assms] by (simp add: list_ex_iff)
  then have "groupby_sum df = Inr (map (\<lambda>c. (c, group_sum df c)) (categories df))"
    by (simp add: groupby_sum_def)
  then show ?thesis using m s by (simp add: performDataWrangling_def)
qed

lemma analyzer_total:
  assumes cf: "clean_frame df" and w: "performDataWrangling df = Inr (w, out)"
  shows "\<exists>out'. performEDA w = Inr (w, out')"
proof -
  have len: "length w = length df" by (rule wrangled_rows(1)[OF w])
  have "\<not> is_Str (Sales r) \<and> \<not> is_Str (Discount r)" if rw: "r \<in> set w" for r
  proof -
    obtain i where i: "i < length df" and r: "r = w ! i"
      using rw len by (metis in_set_conv_nth)
    obtain m s where wi: "w ! i = add_columns (df ! i) m s"
      using wrangled_rows(2)[OF w i] by blast
    have eq: "Sales r = Sales (df ! i)" "Discount r = Discount (df ! i)"
      unfolding r wi by simp_all
    have "df ! i \<in> set df" using i by simp
    then have "\<not> is_Str (Sales (df ! i))" "\<not> is_Str (Discount (df ! i))"
      by (rule clean_frame_no_text(2)[OF cf], rule clean_frame_no_text(4)[OF cf])
    then show ?thesis unfolding eq by simp
  qed
  then have "\<not> list_ex is_Str (map Sales w)" and "\<not> list_ex is_Str (map Discount w)"
    by (simp_all add: list_ex_iff)
  then show ?thesis by (simp add: performEDA_def)
qed

lemma main_succeeds_when_cleaner_does:
  assumes "readCsvAndCleanData file = Inr cleaned"
  shows "\<exists>printed written. main file = Inr (printed, written)"
proof -
  have cf: "clean_frame cleaned" by (rule clean_frame_cleaner[OF assms])
  obtain w out where w: "performDataWrangling cleaned = Inr (w, out)"
    using wrangler_total[OF cf] by blast
  obtain out' where "performEDA w = Inr (w, out')"
    using analyzer_total[OF cf w] by blast
  then show ?thesis using assms w by (simp add: main_def)
qed

end
